theory Spec2Isabelle
  imports Complex_Main "HOL-Library.Word"
begin

unbundle bit_operations_syntax

section \<open>Hardware outputs and machine state\<close>

text \<open>
  The firmware talks to its peripherals through calls that return nothing. The model
  records every such call, in program order, as an event of an output trace:
  \<^item> \<open>ServoAngle a\<close> is the call \<^verbatim>\<open>set_servo_angle(a)\<close>;
  \<^item> \<open>SleepMs n\<close> is the call \<^verbatim>\<open>sleep_ms(n)\<close>;
  \<^item> \<open>Oled title nums\<close> is one screen: \<^verbatim>\<open>ssd1306_clear()\<close>, the
    \<^verbatim>\<open>ssd1306_draw_string\<close> calls and \<^verbatim>\<open>ssd1306_show()\<close>; \<open>title\<close> is the first
    line and \<open>nums\<close> the numbers that \<^verbatim>\<open>sprintf\<close> formats into the other lines.
  The pulse width that \<^verbatim>\<open>set_servo_angle\<close> derives from the angle and the pixels the display
  driver draws are below this level of detail.
\<close>

datatype evento = ServoAngle int | SleepMs int | Oled string "real list"

text \<open>The angles commanded in a trace, in order.\<close>

fun angulos :: "evento list \<Rightarrow> int list" where
  "angulos [] = []"
| "angulos (ServoAngle a # es) = a # angulos es"
| "angulos (SleepMs n # es) = angulos es"
| "angulos (Oled title nums # es) = angulos es"

section \<open>The distribution oscillator\<close>

text \<open>
  \<^verbatim>\<open>
  void mover_servo_oscilando(int min_angle, int max_angle, int pause_ms) {
      for (int angle = min_angle; angle <= max_angle; angle++) {
          set_servo_angle(angle);
          sleep_ms(pause_ms);
      }
      for (int angle = max_angle; angle >= min_angle; angle--) {
          set_servo_angle(angle);
          sleep_ms(pause_ms);
      }
  }
  \<close>
  Each \<^verbatim>\<open>for\<close> loop is a recursive function of its loop variable. The C \<^verbatim>\<open>int\<close>
  is modelled by \<open>int\<close>: the loop variables stay within \<open>min_angle - 1\<close> and
  \<open>max_angle + 1\<close>, which are 32-bit values for every bound the firmware passes
  (50 and 130).
\<close>

function barrido_sube :: "int \<Rightarrow> int \<Rightarrow> int \<Rightarrow> evento list" where
  "barrido_sube angle max_angle pause_ms =
     (if angle \<le> max_angle
      then ServoAngle angle # SleepMs pause_ms # barrido_sube (angle + 1) max_angle pause_ms
      else [])"
  by pat_completeness auto
termination
  by (relation "measure (\<lambda>(angle, max_angle, pause_ms). nat (max_angle + 1 - angle))") auto

function barrido_baja :: "int \<Rightarrow> int \<Rightarrow> int \<Rightarrow> evento list" where
  "barrido_baja angle min_angle pause_ms =
     (if angle \<ge> min_angle
      then ServoAngle angle # SleepMs pause_ms # barrido_baja (angle - 1) min_angle pause_ms
      else [])"
  by pat_completeness auto
termination
  by (relation "measure (\<lambda>(angle, min_angle, pause_ms). nat (angle + 1 - min_angle))") auto

declare barrido_sube.simps [simp del]
declare barrido_baja.simps [simp del]

definition mover_servo_oscilando :: "int \<Rightarrow> int \<Rightarrow> int \<Rightarrow> evento list" where
  "mover_servo_oscilando min_angle max_angle pause_ms =
     barrido_sube min_angle max_angle pause_ms @ barrido_baja max_angle min_angle pause_ms"

text \<open>The oscillator driven \<open>n\<close> times in a row, as the winding loops drive it.\<close>

fun oscilar :: "nat \<Rightarrow> int \<Rightarrow> int \<Rightarrow> int \<Rightarrow> evento list" where
  "oscilar 0 min_angle max_angle pause_ms = []"
| "oscilar (Suc n) min_angle max_angle pause_ms =
     mover_servo_oscilando min_angle max_angle pause_ms @ oscilar n min_angle max_angle pause_ms"

text \<open>One commanded angle followed by its pause.\<close>

definition paso :: "int \<Rightarrow> int \<Rightarrow> evento list" where
  "paso pause_ms a = [ServoAngle a, SleepMs pause_ms]"

section \<open>Unit conversion\<close>

text \<open>
  \<^verbatim>\<open>
  #define PULSOS_POR_VUELTA 100
  #define DIAMETRO_TAMBOR_CM 1.4
  #define CM_POR_VUELTA (3.1416 * DIAMETRO_TAMBOR_CM)
  #define PULSOS_POR_CM (PULSOS_POR_VUELTA / CM_POR_VUELTA)
  #define PULSOS_POR_METRO (PULSOS_POR_CM * 100)
  \<close>
  The firmware evaluates these expressions in \<^verbatim>\<open>double\<close>. The macros and the two functions
  that turn a quantity into a target, \<open>metros_a_pulsos\<close> and \<open>calcular_vueltas_para_mH\<close>, are
  evaluated here in exact real arithmetic, with the conversion to \<^verbatim>\<open>int\<close> kept; the metres
  shown on the display, \<open>pulsos_a_metros\<close>, carry the rounding of the C types.
\<close>

definition PULSOS_POR_VUELTA :: real where
  "PULSOS_POR_VUELTA = 100"

definition DIAMETRO_TAMBOR_CM :: real where
  "DIAMETRO_TAMBOR_CM = 1.4"

definition CM_POR_VUELTA :: real where
  "CM_POR_VUELTA = 3.1416 * DIAMETRO_TAMBOR_CM"

definition PULSOS_POR_CM :: real where
  "PULSOS_POR_CM = PULSOS_POR_VUELTA / CM_POR_VUELTA"

definition PULSOS_POR_METRO :: real where
  "PULSOS_POR_METRO = PULSOS_POR_CM * 100"

text \<open>
  The C conversion \<^verbatim>\<open>(int) x\<close> of a floating-point value discards the fraction
  (rounds towards zero). It is defined in C only when the result fits the \<^verbatim>\<open>int\<close>.
\<close>

definition c_int :: "real \<Rightarrow> int" where
  "c_int x = (if 0 \<le> x then \<lfloor>x\<rfloor> else \<lceil>x\<rceil>)"

text \<open>
  Metres to pulses, the first line of \<^verbatim>\<open>enrollar_hasta\<close>:
  \<^verbatim>\<open>int pulsos_deseados = metros_deseados * PULSOS_POR_METRO;\<close>
\<close>

definition metros_a_pulsos :: "int \<Rightarrow> int" where
  "metros_a_pulsos metros_deseados = c_int (real_of_int metros_deseados * PULSOS_POR_METRO)"

text \<open>
  The value a C floating-point type stores for a real number: the nearest number with
  \<open>p\<close> significant binary digits, a tie going to the neighbour whose last digit is even
  (\<open>p = 24\<close> for \<^verbatim>\<open>float\<close>, \<open>p = 53\<close> for \<^verbatim>\<open>double\<close>). The exponent range of the formats is left
  out: the metres of any count of a C \<^verbatim>\<open>int\<close> neither overflow nor fall among the subnormal
  numbers.
\<close>

definition redondeo_par :: "real \<Rightarrow> int" where
  "redondeo_par x =
     (let f = \<lfloor>x\<rfloor>;
          r = x - real_of_int f
      in if r < 1 / 2 then f
         else if 1 / 2 < r then f + 1
         else if even f then f else f + 1)"

definition binario :: "nat \<Rightarrow> real \<Rightarrow> real" where
  "binario p x =
     (if x = 0 then 0
      else (let e = \<lfloor>log 2 \<bar>x\<bar>\<rfloor> - int p + 1
            in real_of_int (redondeo_par (x / 2 powi e)) * 2 powi e))"

definition c_float :: "real \<Rightarrow> real" where
  "c_float = binario 24"

definition c_double :: "real \<Rightarrow> real" where
  "c_double = binario 53"

text \<open>
  Pulses to metres, as every progress and total line computes it:
  \<^verbatim>\<open>float metros_actuales = (float)pulsos_encoder / PULSOS_POR_METRO;\<close>
  The count is converted to \<^verbatim>\<open>float\<close>, the division is made in \<^verbatim>\<open>double\<close>, and the quotient is
  stored in a \<^verbatim>\<open>float\<close>.
\<close>

definition pulsos_a_metros :: "int \<Rightarrow> real" where
  "pulsos_a_metros pulsos =
     c_float (c_double (c_float (real_of_int pulsos) / PULSOS_POR_METRO))"

text \<open>
  \<^verbatim>\<open>
  int calcular_vueltas_para_mH(int milihenrios) {
      const float mu_0 = 4 * 3.1416e-7;
      const float radio = 0.014;
      const float altura = 0.028;
      float A = 3.1416 * radio * radio;
      float L = (float)milihenrios / 1000.0;
      float N = sqrt((L * altura) / (mu_0 * A));
      return (int)(N + 0.5);
  }
  \<close>
  For a negative argument the C \<^verbatim>\<open>sqrt\<close> yields no number; the model is meant for
  \<open>milihenrios \<ge> 0\<close> only.
\<close>

definition calcular_vueltas_para_mH :: "int \<Rightarrow> int" where
  "calcular_vueltas_para_mH milihenrios =
     (let mu_0 = 4 * (3.1416 / 10 ^ 7);
          radio = 0.014;
          altura = 0.028;
          A = 3.1416 * radio * radio;
          L = real_of_int milihenrios / 1000.0;
          N = sqrt ((L * altura) / (mu_0 * A))
      in c_int (N + 0.5))"

text \<open>
  The number of turns the solenoid approximation \<open>L = \<mu>\<^sub>0 N\<^sup>2 A / h\<close> asks for, before any
  rounding: \<open>N = sqrt (L h / (\<mu>\<^sub>0 A))\<close>, with \<open>L\<close> in henries, \<open>A = \<pi> r\<^sup>2\<close>, and the constants of
  \<^verbatim>\<open>calcular_vueltas_para_mH\<close> for \<open>\<mu>\<^sub>0\<close>, \<open>\<pi>\<close>, \<open>r\<close> and \<open>h\<close>.
\<close>

definition N_solenoide :: "int \<Rightarrow> real" where
  "N_solenoide milihenrios =
     sqrt ((real_of_int milihenrios / 1000 * 0.028) /
           (4 * (3.1416 / 10 ^ 7) * (3.1416 * 0.014 * 0.014)))"

section \<open>The pulse counter and the machine state\<close>

text \<open>
  The state of the machine as the winding functions see it: the global
  \<^verbatim>\<open>volatile int pulsos_encoder\<close>, the level of the \<^verbatim>\<open>MOTOR_EN\<close> output, the local
  variable that remembers the count last shown (\<^verbatim>\<open>ultimo_pulso_mostrado\<close>,
  \<^verbatim>\<open>ultima_muestra\<close>), and the trace of peripheral calls made so far.
\<close>

record maquina =
  pulsos_encoder :: int
  motor_en :: bool
  ultimo_mostrado :: int
  traza :: "evento list"

text \<open>A C \<^verbatim>\<open>int\<close> has 32 bits on the target; \<open>int32\<close> wraps a value into its range.\<close>

definition int32 :: "int \<Rightarrow> int" where
  "int32 x = (x + 2 ^ 31) mod 2 ^ 32 - 2 ^ 31"

definition OPT_ENCODER_DT :: "32 word" where
  "OPT_ENCODER_DT = 15"

text \<open>The event mask of a falling edge, as the Pico SDK header defines it.\<close>

definition GPIO_IRQ_EDGE_FALL :: "32 word" where
  "GPIO_IRQ_EDGE_FALL = 4"

text \<open>
  \<^verbatim>\<open>
  void gpio_callback(uint gpio, uint32_t events) {
      if (gpio == OPT_ENCODER_DT && (events & GPIO_IRQ_EDGE_FALL)) {
          pulsos_encoder++;
      }
  }
  \<close>
\<close>

definition gpio_callback :: "32 word \<Rightarrow> 32 word \<Rightarrow> maquina \<Rightarrow> maquina" where
  "gpio_callback gpio events s =
     (if gpio = OPT_ENCODER_DT \<and> events AND GPIO_IRQ_EDGE_FALL \<noteq> 0
      then s\<lparr>pulsos_encoder := int32 (pulsos_encoder s + 1)\<rparr>
      else s)"

text \<open>\<open>n\<close> falling edges of the encoder, each served by the handler.\<close>

definition interrupciones :: "nat \<Rightarrow> maquina \<Rightarrow> maquina" where
  "interrupciones n s = (gpio_callback OPT_ENCODER_DT GPIO_IRQ_EDGE_FALL ^^ n) s"

text \<open>The peripheral calls, as state transformers.\<close>

definition ssd1306 :: "string \<Rightarrow> real list \<Rightarrow> maquina \<Rightarrow> maquina" where
  "ssd1306 title nums s = s\<lparr>traza := traza s @ [Oled title nums]\<rparr>"

definition sleep_ms :: "int \<Rightarrow> maquina \<Rightarrow> maquina" where
  "sleep_ms ms s = s\<lparr>traza := traza s @ [SleepMs ms]\<rparr>"

definition gpio_put_MOTOR_EN :: "bool \<Rightarrow> maquina \<Rightarrow> maquina" where
  "gpio_put_MOTOR_EN level s = s\<lparr>motor_en := level\<rparr>"

definition oscila_servo :: "int \<Rightarrow> int \<Rightarrow> int \<Rightarrow> maquina \<Rightarrow> maquina" where
  "oscila_servo min_angle max_angle pause_ms s =
     s\<lparr>traza := traza s @ mover_servo_oscilando min_angle max_angle pause_ms\<rparr>"

text \<open>
  \<^verbatim>\<open>
  int leer_fuerza() {
      return 0;
  }
  \<close>
\<close>

definition leer_fuerza :: int where
  "leer_fuerza = 0"

section \<open>The environment of a run\<close>

text \<open>
  A winding loop runs until a condition of its own ends it, so a run is modelled against
  a finite list of samples of the environment, one for each pass through the loop body:
  \<^item> \<open>flancos\<close>: the falling edges of the encoder that arrive while the servo sweep of
    this pass blocks in its pauses (the loop yields nowhere else);
  \<^item> \<open>fuerza\<close>: the reading a wired tension sensor would deliver in this pass;
  \<^item> \<open>rot_sw\<close>: the level \<^verbatim>\<open>gpio_get(ROT_SW)\<close> reads in this pass; the pin is pulled
    up, so \<open>False\<close> means the switch is pressed.
  A run that uses up the samples while its loop is still running returns \<open>None\<close> and the
  state at the head of the loop; a run that returns from the C function returns the
  way it ended and the state at the \<^verbatim>\<open>return\<close>.
\<close>

record muestra =
  flancos :: nat
  fuerza :: int
  rot_sw :: bool

text \<open>
  The three ways a winding function returns: after its \<^verbatim>\<open>while\<close> condition fails
  (target reached), from the branch of the switch, from the branch of the tension check.
\<close>

datatype resultado = Completed | AbortedByOperator | AbortedByTension

section \<open>The winding functions\<close>

text \<open>
  The branch every winding loop takes when the tension reading exceeds 3000:
  \<^verbatim>\<open>
  gpio_put(MOTOR_EN, 0);
  ssd1306_clear();
  ssd1306_draw_string(0, 0, "TENSION EXCESIVA!");
  ssd1306_draw_string(0, 10, "Motor detenido.");
  ssd1306_show();
  return;
  \<close>
\<close>

definition tension_excesiva :: "maquina \<Rightarrow> maquina" where
  "tension_excesiva s =
     (let s = gpio_put_MOTOR_EN False s;
          s = ssd1306 ''TENSION EXCESIVA!'' [] s
      in s)"

text \<open>
  Each loop below takes the tension reading of a pass as a function \<open>lf\<close> of the sample.
  The firmware's functions are the instances with \<open>lf\<close> the constant \<open>leer_fuerza\<close>;
  the instances with \<open>lf = fuerza\<close> run the same code against a simulated sensor.
\<close>

subsection \<open>Thread, automatic: \<^verbatim>\<open>enrollar_auto\<close>\<close>

definition progreso_auto :: "maquina \<Rightarrow> maquina" where
  "progreso_auto s =
     (let pulsos_actuales = pulsos_encoder s
      in if pulsos_actuales - ultimo_mostrado s \<ge> 100
         then ssd1306 ''Enrollando (Auto)...'' [pulsos_a_metros pulsos_actuales]
                (s\<lparr>ultimo_mostrado := pulsos_actuales\<rparr>)
         else s)"

definition detenido_auto :: "maquina \<Rightarrow> maquina" where
  "detenido_auto s =
     (let s = sleep_ms 200 s;
          s = gpio_put_MOTOR_EN False s;
          s = ssd1306 ''Enrollado detenido.'' [pulsos_a_metros (pulsos_encoder s)] s;
          s = sleep_ms 2000 s
      in s)"

fun bucle_auto :: "(muestra \<Rightarrow> int) \<Rightarrow> maquina \<Rightarrow> muestra list \<Rightarrow> resultado option \<times> maquina" where
  "bucle_auto lf s [] = (None, s)"
| "bucle_auto lf s (t # ts) =
     (let s = progreso_auto s;
          s = oscila_servo 50 130 15 s;
          s = interrupciones (flancos t) s
      in if lf t > 3000 then (Some AbortedByTension, tension_excesiva s)
         else if \<not> rot_sw t then (Some AbortedByOperator, detenido_auto s)
         else bucle_auto lf s ts)"

definition enrollar_auto_con ::
  "(muestra \<Rightarrow> int) \<Rightarrow> maquina \<Rightarrow> muestra list \<Rightarrow> resultado option \<times> maquina" where
  "enrollar_auto_con lf s ticks =
     (let s = s\<lparr>pulsos_encoder := 0\<rparr>;
          s = ssd1306 ''Auto Enrollando...'' [] s;
          s = gpio_put_MOTOR_EN True s;
          s = s\<lparr>ultimo_mostrado := 0\<rparr>
      in bucle_auto lf s ticks)"

definition enrollar_auto :: "maquina \<Rightarrow> muestra list \<Rightarrow> resultado option \<times> maquina" where
  "enrollar_auto = enrollar_auto_con (\<lambda>t. leer_fuerza)"

subsection \<open>Thread, manual: \<^verbatim>\<open>enrollar_hasta\<close>\<close>

definition progreso_hasta :: "maquina \<Rightarrow> maquina" where
  "progreso_hasta s =
     (if pulsos_encoder s - ultimo_mostrado s \<ge> 100
      then ssd1306 ''Enrollando...'' [pulsos_a_metros (pulsos_encoder s)]
             (s\<lparr>ultimo_mostrado := pulsos_encoder s\<rparr>)
      else s)"

definition completo_hasta :: "maquina \<Rightarrow> maquina" where
  "completo_hasta s =
     (let s = gpio_put_MOTOR_EN False s;
          s = ssd1306 ''Enrollado completo!'' [pulsos_a_metros (pulsos_encoder s)] s;
          s = sleep_ms 2000 s
      in s)"

fun bucle_hasta ::
  "(muestra \<Rightarrow> int) \<Rightarrow> int \<Rightarrow> maquina \<Rightarrow> muestra list \<Rightarrow> resultado option \<times> maquina" where
  "bucle_hasta lf pulsos_deseados s [] =
     (if pulsos_encoder s < pulsos_deseados then (None, s)
      else (Some Completed, completo_hasta s))"
| "bucle_hasta lf pulsos_deseados s (t # ts) =
     (if pulsos_encoder s < pulsos_deseados
      then (let s = progreso_hasta s;
                s = oscila_servo 50 130 15 s;
                s = interrupciones (flancos t) s
            in if lf t > 3000 then (Some AbortedByTension, tension_excesiva s)
               else bucle_hasta lf pulsos_deseados s ts)
      else (Some Completed, completo_hasta s))"

definition enrollar_hasta_con ::
  "(muestra \<Rightarrow> int) \<Rightarrow> int \<Rightarrow> maquina \<Rightarrow> muestra list \<Rightarrow> resultado option \<times> maquina" where
  "enrollar_hasta_con lf metros_deseados s ticks =
     (let pulsos_deseados = metros_a_pulsos metros_deseados;
          s = s\<lparr>pulsos_encoder := 0\<rparr>;
          s = s\<lparr>ultimo_mostrado := 0\<rparr>;
          s = ssd1306 ''Enrollando...'' [] s;
          s = gpio_put_MOTOR_EN True s
      in bucle_hasta lf pulsos_deseados s ticks)"

definition enrollar_hasta :: "int \<Rightarrow> maquina \<Rightarrow> muestra list \<Rightarrow> resultado option \<times> maquina" where
  "enrollar_hasta = enrollar_hasta_con (\<lambda>t. leer_fuerza)"

subsection \<open>Copper, manual: \<^verbatim>\<open>enrollar_cobre_manual\<close>\<close>

definition progreso_cobre :: "string \<Rightarrow> maquina \<Rightarrow> maquina" where
  "progreso_cobre title s =
     (if pulsos_encoder s - ultimo_mostrado s \<ge> 20
      then ssd1306 title [real_of_int (pulsos_encoder s)]
             (s\<lparr>ultimo_mostrado := pulsos_encoder s\<rparr>)
      else s)"

definition detenido_cobre :: "maquina \<Rightarrow> maquina" where
  "detenido_cobre s =
     (let s = sleep_ms 200 s;
          s = gpio_put_MOTOR_EN False s;
          s = ssd1306 ''Enrollado detenido.'' [real_of_int (pulsos_encoder s)] s;
          s = sleep_ms 2000 s
      in s)"

definition completo_cobre_manual :: "int \<Rightarrow> maquina \<Rightarrow> maquina" where
  "completo_cobre_manual milihenrios s =
     (let s = gpio_put_MOTOR_EN False s;
          s = ssd1306 ''Bobina completada!'' [real_of_int milihenrios] s;
          s = sleep_ms 2000 s
      in s)"

fun bucle_cobre_manual ::
  "(muestra \<Rightarrow> int) \<Rightarrow> int \<Rightarrow> int \<Rightarrow> maquina \<Rightarrow> muestra list \<Rightarrow> resultado option \<times> maquina" where
  "bucle_cobre_manual lf milihenrios vueltas_objetivo s [] =
     (if pulsos_encoder s < vueltas_objetivo then (None, s)
      else (Some Completed, completo_cobre_manual milihenrios s))"
| "bucle_cobre_manual lf milihenrios vueltas_objetivo s (t # ts) =
     (if pulsos_encoder s < vueltas_objetivo
      then (let s = progreso_cobre ''Cobre Manual...'' s;
                s = oscila_servo 50 130 15 s;
                s = interrupciones (flancos t) s
            in if lf t > 3000 then (Some AbortedByTension, tension_excesiva s)
               else if \<not> rot_sw t then (Some AbortedByOperator, detenido_cobre s)
               else bucle_cobre_manual lf milihenrios vueltas_objetivo s ts)
      else (Some Completed, completo_cobre_manual milihenrios s))"

definition enrollar_cobre_manual_con ::
  "(muestra \<Rightarrow> int) \<Rightarrow> int \<Rightarrow> maquina \<Rightarrow> muestra list \<Rightarrow> resultado option \<times> maquina" where
  "enrollar_cobre_manual_con lf milihenrios s ticks =
     (let vueltas_objetivo = calcular_vueltas_para_mH milihenrios;
          s = s\<lparr>pulsos_encoder := 0\<rparr>;
          s = s\<lparr>ultimo_mostrado := 0\<rparr>;
          s = ssd1306 ''Cobre Manual...''
                [real_of_int milihenrios, real_of_int vueltas_objetivo] s;
          s = gpio_put_MOTOR_EN True s
      in bucle_cobre_manual lf milihenrios vueltas_objetivo s ticks)"

definition enrollar_cobre_manual ::
  "int \<Rightarrow> maquina \<Rightarrow> muestra list \<Rightarrow> resultado option \<times> maquina" where
  "enrollar_cobre_manual = enrollar_cobre_manual_con (\<lambda>t. leer_fuerza)"

subsection \<open>Copper, automatic: \<^verbatim>\<open>enrollar_cobre_auto\<close>\<close>

definition completo_cobre_auto :: "maquina \<Rightarrow> maquina" where
  "completo_cobre_auto s =
     (let s = gpio_put_MOTOR_EN False s;
          s = ssd1306 ''Bobina completa!'' [] s;
          s = sleep_ms 2000 s
      in s)"

fun bucle_cobre_auto ::
  "(muestra \<Rightarrow> int) \<Rightarrow> int \<Rightarrow> maquina \<Rightarrow> muestra list \<Rightarrow> resultado option \<times> maquina" where
  "bucle_cobre_auto lf vueltas_objetivo s [] =
     (if pulsos_encoder s < vueltas_objetivo then (None, s)
      else (Some Completed, completo_cobre_auto s))"
| "bucle_cobre_auto lf vueltas_objetivo s (t # ts) =
     (if pulsos_encoder s < vueltas_objetivo
      then (let s = progreso_cobre ''Cobre Auto (1H)...'' s;
                s = oscila_servo 50 130 15 s;
                s = interrupciones (flancos t) s
            in if lf t > 3000 then (Some AbortedByTension, tension_excesiva s)
               else if \<not> rot_sw t then (Some AbortedByOperator, detenido_cobre s)
               else bucle_cobre_auto lf vueltas_objetivo s ts)
      else (Some Completed, completo_cobre_auto s))"

definition enrollar_cobre_auto_con ::
  "(muestra \<Rightarrow> int) \<Rightarrow> maquina \<Rightarrow> muestra list \<Rightarrow> resultado option \<times> maquina" where
  "enrollar_cobre_auto_con lf s ticks =
     (let vueltas_objetivo = calcular_vueltas_para_mH 1000;
          s = s\<lparr>pulsos_encoder := 0\<rparr>;
          s = s\<lparr>ultimo_mostrado := 0\<rparr>;
          s = ssd1306 ''Cobre Auto (1H)...'' [real_of_int vueltas_objetivo] s;
          s = gpio_put_MOTOR_EN True s
      in bucle_cobre_auto lf vueltas_objetivo s ticks)"

definition enrollar_cobre_auto :: "maquina \<Rightarrow> muestra list \<Rightarrow> resultado option \<times> maquina" where
  "enrollar_cobre_auto = enrollar_cobre_auto_con (\<lambda>t. leer_fuerza)"

section \<open>Sample inputs\<close>

text \<open>
  A machine at rest with a stale pulse count, and three samples of the environment: the
  drum turns and delivers \<open>n\<close> edges; the simulated sensor reads 3001; the switch is
  pressed.
\<close>

definition reposo :: maquina where
  "reposo = \<lparr>pulsos_encoder = 7, motor_en = False, ultimo_mostrado = 0, traza = []\<rparr>"

definition gira :: "nat \<Rightarrow> muestra" where
  "gira n = \<lparr>flancos = n, fuerza = 0, rot_sw = True\<rparr>"

definition tirante :: muestra where
  "tirante = \<lparr>flancos = 0, fuerza = 3001, rot_sw = True\<rparr>"


section \<open>The sweep of the oscillator\<close>

lemma angulos_append [simp]: "angulos (xs @ ys) = angulos xs @ angulos ys"
  by (induction xs rule: angulos.induct) simp_all

lemma barrido_sube_pasos:
  "barrido_sube a mx p = concat (map (paso p) [a..mx])"
proof (induction a mx p rule: barrido_sube.induct)
  case (1 angle max_angle pause_ms)
  show ?case
  proof (cases "angle \<le> max_angle")
    case True
    with 1 show ?thesis
      by (simp add: barrido_sube.simps [of angle] upto_rec1 [of angle] paso_def)
  next
    case False
    then show ?thesis by (simp add: barrido_sube.simps [of angle])
  qed
qed

lemma barrido_baja_pasos:
  "barrido_baja a mn p = concat (map (paso p) (rev [mn..a]))"
proof (induction a mn p rule: barrido_baja.induct)
  case (1 angle min_angle pause_ms)
  show ?case
  proof (cases "min_angle \<le> angle")
    case True
    with 1 show ?thesis
      by (simp add: barrido_baja.simps [of angle] upto_rec2 [of min_angle angle] paso_def)
  next
    case False
    then show ?thesis by (simp add: barrido_baja.simps [of angle])
  qed
qed

lemma angulos_pasos: "angulos (concat (map (paso p) xs)) = xs"
  by (induction xs) (simp_all add: paso_def)

lemma mover_pasos:
  "mover_servo_oscilando mn mx p = concat (map (paso p) ([mn..mx] @ rev [mn..mx]))"
  by (simp add: mover_servo_oscilando_def barrido_sube_pasos barrido_baja_pasos)

lemma angulos_mover: "angulos (mover_servo_oscilando mn mx p) = [mn..mx] @ rev [mn..mx]"
  by (simp only: mover_pasos angulos_pasos)

lemma angulos_oscilar:
  "angulos (oscilar n mn mx p) = concat (replicate n ([mn..mx] @ rev [mn..mx]))"
  by (induction n) (simp_all add: angulos_mover)

section \<open>Effect of the peripheral calls on the state\<close>

lemma sel_ssd1306 [simp]:
  "pulsos_encoder (ssd1306 title nums s) = pulsos_encoder s"
  "motor_en (ssd1306 title nums s) = motor_en s"
  "ultimo_mostrado (ssd1306 title nums s) = ultimo_mostrado s"
  "traza (ssd1306 title nums s) = traza s @ [Oled title nums]"
  by (simp_all add: ssd1306_def)

lemma sel_sleep_ms [simp]:
  "pulsos_encoder (sleep_ms ms s) = pulsos_encoder s"
  "motor_en (sleep_ms ms s) = motor_en s"
  "ultimo_mostrado (sleep_ms ms s) = ultimo_mostrado s"
  "traza (sleep_ms ms s) = traza s @ [SleepMs ms]"
  by (simp_all add: sleep_ms_def)

lemma sel_gpio_put [simp]:
  "pulsos_encoder (gpio_put_MOTOR_EN b s) = pulsos_encoder s"
  "motor_en (gpio_put_MOTOR_EN b s) = b"
  "ultimo_mostrado (gpio_put_MOTOR_EN b s) = ultimo_mostrado s"
  "traza (gpio_put_MOTOR_EN b s) = traza s"
  by (simp_all add: gpio_put_MOTOR_EN_def)

lemma sel_oscila_servo [simp]:
  "pulsos_encoder (oscila_servo mn mx p s) = pulsos_encoder s"
  "motor_en (oscila_servo mn mx p s) = motor_en s"
  "ultimo_mostrado (oscila_servo mn mx p s) = ultimo_mostrado s"
  "traza (oscila_servo mn mx p s) = traza s @ mover_servo_oscilando mn mx p"
  by (simp_all add: oscila_servo_def)



lemma gpio_callback_flanco:
  "gpio_callback OPT_ENCODER_DT GPIO_IRQ_EDGE_FALL s =
     s\<lparr>pulsos_encoder := int32 (pulsos_encoder s + 1)\<rparr>"
  by (simp add: gpio_callback_def GPIO_IRQ_EDGE_FALL_def)

lemma int32_id: "- (2 ^ 31) \<le> x \<Longrightarrow> x < 2 ^ 31 \<Longrightarrow> int32 x = x"
  by (simp add: int32_def)

lemma interrupciones_0 [simp]: "interrupciones 0 s = s"
  by (simp add: interrupciones_def)

lemma interrupciones_Suc:
  "interrupciones (Suc n) s =
     gpio_callback OPT_ENCODER_DT GPIO_IRQ_EDGE_FALL (interrupciones n s)"
  by (simp add: interrupciones_def)

lemma sel_interrupciones [simp]:
  "motor_en (interrupciones n s) = motor_en s"
  "ultimo_mostrado (interrupciones n s) = ultimo_mostrado s"
  "traza (interrupciones n s) = traza s"
  by (induction n) (simp_all add: interrupciones_Suc gpio_callback_flanco)

lemma pulsos_interrupciones_gen:
  "pulsos_encoder (interrupciones n s) = ((\<lambda>p. int32 (p + 1)) ^^ n) (pulsos_encoder s)"
  by (induction n) (simp_all add: interrupciones_Suc gpio_callback_flanco)

lemma pulsos_interrupciones:
  "- (2 ^ 31) \<le> pulsos_encoder s \<Longrightarrow> pulsos_encoder s + int n < 2 ^ 31 \<Longrightarrow>
   pulsos_encoder (interrupciones n s) = pulsos_encoder s + int n"
  by (induction n) (simp_all add: interrupciones_Suc gpio_callback_flanco int32_id)

lemma sel_tension_excesiva [simp]:
  "pulsos_encoder (tension_excesiva s) = pulsos_encoder s"
  "motor_en (tension_excesiva s) = False"
  "angulos (traza (tension_excesiva s)) = angulos (traza s)"
  by (simp_all add: tension_excesiva_def)

lemma sel_progreso_auto [simp]:
  "pulsos_encoder (progreso_auto s) = pulsos_encoder s"
  "motor_en (progreso_auto s) = motor_en s"
  "angulos (traza (progreso_auto s)) = angulos (traza s)"
  by (simp_all add: progreso_auto_def Let_def)

lemma sel_progreso_hasta [simp]:
  "pulsos_encoder (progreso_hasta s) = pulsos_encoder s"
  "motor_en (progreso_hasta s) = motor_en s"
  "angulos (traza (progreso_hasta s)) = angulos (traza s)"
  by (simp_all add: progreso_hasta_def)

lemma sel_progreso_cobre [simp]:
  "pulsos_encoder (progreso_cobre title s) = pulsos_encoder s"
  "motor_en (progreso_cobre title s) = motor_en s"
  "angulos (traza (progreso_cobre title s)) = angulos (traza s)"
  by (simp_all add: progreso_cobre_def)

lemma sel_detenido_auto [simp]:
  "pulsos_encoder (detenido_auto s) = pulsos_encoder s"
  "motor_en (detenido_auto s) = False"
  "angulos (traza (detenido_auto s)) = angulos (traza s)"
  by (simp_all add: detenido_auto_def)

lemma sel_detenido_cobre [simp]:
  "pulsos_encoder (detenido_cobre s) = pulsos_encoder s"
  "motor_en (detenido_cobre s) = False"
  "angulos (traza (detenido_cobre s)) = angulos (traza s)"
  by (simp_all add: detenido_cobre_def)

lemma sel_completo_hasta [simp]:
  "pulsos_encoder (completo_hasta s) = pulsos_encoder s"
  "motor_en (completo_hasta s) = False"
  "angulos (traza (completo_hasta s)) = angulos (traza s)"
  by (simp_all add: completo_hasta_def)

lemma sel_completo_cobre_manual [simp]:
  "pulsos_encoder (completo_cobre_manual mh s) = pulsos_encoder s"
  "motor_en (completo_cobre_manual mh s) = False"
  "angulos (traza (completo_cobre_manual mh s)) = angulos (traza s)"
  by (simp_all add: completo_cobre_manual_def)

lemma sel_completo_cobre_auto [simp]:
  "pulsos_encoder (completo_cobre_auto s) = pulsos_encoder s"
  "motor_en (completo_cobre_auto s) = False"
  "angulos (traza (completo_cobre_auto s)) = angulos (traza s)"
  by (simp_all add: completo_cobre_auto_def)

subsection \<open>The loop of \<^verbatim>\<open>enrollar_auto\<close>\<close>

lemma bucle_auto_append:
  "bucle_auto lf s (pre @ post) =
     (case bucle_auto lf s pre of
        (None, s') \<Rightarrow> bucle_auto lf s' post
      | (Some r, s') \<Rightarrow> (Some r, s'))"
  by (induction pre arbitrary: s) (simp_all add: Let_def)

lemma bucle_auto_sigue:
  "fst (bucle_auto lf s pre) = None \<Longrightarrow>
   bucle_auto lf s (pre @ post) = bucle_auto lf (snd (bucle_auto lf s pre)) post"
  by (cases "bucle_auto lf s pre") (simp add: bucle_auto_append)

lemma bucle_auto_fin:
  "fst (bucle_auto lf s pre) = Some r \<Longrightarrow> bucle_auto lf s (pre @ post) = bucle_auto lf s pre"
  by (cases "bucle_auto lf s pre") (simp add: bucle_auto_append)

lemma bucle_auto_sin_tension:
  "(\<And>t. lf t \<le> 3000) \<Longrightarrow> fst (bucle_auto lf s ticks) \<noteq> Some AbortedByTension"
  by (induction ticks arbitrary: s) (simp_all add: Let_def not_less [symmetric])

lemma bucle_auto_motor:
  "motor_en s \<Longrightarrow> fst (bucle_auto lf s ticks) = None \<Longrightarrow> motor_en (snd (bucle_auto lf s ticks))"
  by (induction ticks arbitrary: s) (simp_all add: Let_def split: if_splits)

lemma bucle_auto_tension:
  assumes "fst (bucle_auto lf s pre) = None" and "3000 < lf t"
  shows "fst (bucle_auto lf s (pre @ t # post)) = Some AbortedByTension
       \<and> \<not> motor_en (snd (bucle_auto lf s (pre @ t # post)))
       \<and> bucle_auto lf s (pre @ t # post) = bucle_auto lf s (pre @ [t])"
  using assms by (simp add: bucle_auto_sigue Let_def)


subsection \<open>The loop of \<^verbatim>\<open>enrollar_hasta\<close>\<close>

lemma bucle_hasta_alcanzado:
  "\<not> pulsos_encoder s < obj \<Longrightarrow> bucle_hasta lf obj s ticks = (Some Completed, completo_hasta s)"
  by (cases ticks) simp_all

lemma bucle_hasta_append:
  "bucle_hasta lf obj s (pre @ post) =
     (case bucle_hasta lf obj s pre of
        (None, s') \<Rightarrow> bucle_hasta lf obj s' post
      | (Some r, s') \<Rightarrow> (Some r, s'))"
  by (induction pre arbitrary: s) (simp_all add: Let_def bucle_hasta_alcanzado)

lemma bucle_hasta_sigue:
  "fst (bucle_hasta lf obj s pre) = None \<Longrightarrow>
   bucle_hasta lf obj s (pre @ post) = bucle_hasta lf obj (snd (bucle_hasta lf obj s pre)) post"
  by (cases "bucle_hasta lf obj s pre") (simp add: bucle_hasta_append)

lemma bucle_hasta_fin:
  "fst (bucle_hasta lf obj s pre) = Some r \<Longrightarrow> bucle_hasta lf obj s (pre @ post) = bucle_hasta lf obj s pre"
  by (cases "bucle_hasta lf obj s pre") (simp add: bucle_hasta_append)

lemma bucle_hasta_sin_tension:
  "(\<And>t. lf t \<le> 3000) \<Longrightarrow> fst (bucle_hasta lf obj s ticks) \<noteq> Some AbortedByTension"
  by (induction ticks arbitrary: s) (simp_all add: Let_def not_less [symmetric])

lemma bucle_hasta_motor:
  "motor_en s \<Longrightarrow> fst (bucle_hasta lf obj s ticks) = None \<Longrightarrow> motor_en (snd (bucle_hasta lf obj s ticks))"
  by (induction ticks arbitrary: s) (simp_all add: Let_def split: if_splits)

lemma bucle_hasta_none:
  "fst (bucle_hasta lf obj s ticks) = None \<Longrightarrow> pulsos_encoder (snd (bucle_hasta lf obj s ticks)) < obj"
  by (induction ticks arbitrary: s) (simp_all add: Let_def split: if_splits)

lemma bucle_hasta_completo:
  "fst (bucle_hasta lf obj s ticks) = Some Completed \<Longrightarrow>
   obj \<le> pulsos_encoder (snd (bucle_hasta lf obj s ticks)) \<and> \<not> motor_en (snd (bucle_hasta lf obj s ticks))"
  by (induction ticks arbitrary: s) (simp_all add: Let_def split: if_splits)

lemma bucle_hasta_tension:
  assumes "fst (bucle_hasta lf obj s pre) = None" and "3000 < lf t"
  shows "fst (bucle_hasta lf obj s (pre @ t # post)) = Some AbortedByTension
       \<and> \<not> motor_en (snd (bucle_hasta lf obj s (pre @ t # post)))
       \<and> bucle_hasta lf obj s (pre @ t # post) = bucle_hasta lf obj s (pre @ [t])"
  using assms bucle_hasta_none [OF assms(1)] by (simp add: bucle_hasta_sigue Let_def)

lemma bucle_hasta_nunca_operador:
  "fst (bucle_hasta lf obj s ticks) \<noteq> Some AbortedByOperator"
  by (induction ticks arbitrary: s) (simp_all add: Let_def)

subsection \<open>The loop of \<^verbatim>\<open>enrollar_cobre_manual\<close>\<close>

lemma bucle_cobre_manual_alcanzado:
  "\<not> pulsos_encoder s < obj \<Longrightarrow> bucle_cobre_manual lf mh obj s ticks = (Some Completed, completo_cobre_manual mh s)"
  by (cases ticks) simp_all

lemma bucle_cobre_manual_append:
  "bucle_cobre_manual lf mh obj s (pre @ post) =
     (case bucle_cobre_manual lf mh obj s pre of
        (None, s') \<Rightarrow> bucle_cobre_manual lf mh obj s' post
      | (Some r, s') \<Rightarrow> (Some r, s'))"
  by (induction pre arbitrary: s) (simp_all add: Let_def bucle_cobre_manual_alcanzado)

lemma bucle_cobre_manual_sigue:
  "fst (bucle_cobre_manual lf mh obj s pre) = None \<Longrightarrow>
   bucle_cobre_manual lf mh obj s (pre @ post) = bucle_cobre_manual lf mh obj (snd (bucle_cobre_manual lf mh obj s pre)) post"
  by (cases "bucle_cobre_manual lf mh obj s pre") (simp add: bucle_cobre_manual_append)

lemma bucle_cobre_manual_fin:
  "fst (bucle_cobre_manual lf mh obj s pre) = Some r \<Longrightarrow> bucle_cobre_manual lf mh obj s (pre @ post) = bucle_cobre_manual lf mh obj s pre"
  by (cases "bucle_cobre_manual lf mh obj s pre") (simp add: bucle_cobre_manual_append)

lemma bucle_cobre_manual_sin_tension:
  "(\<And>t. lf t \<le> 3000) \<Longrightarrow> fst (bucle_cobre_manual lf mh obj s ticks) \<noteq> Some AbortedByTension"
  by (induction ticks arbitrary: s) (simp_all add: Let_def not_less [symmetric])

lemma bucle_cobre_manual_motor:
  "motor_en s \<Longrightarrow> fst (bucle_cobre_manual lf mh obj s ticks) = None \<Longrightarrow> motor_en (snd (bucle_cobre_manual lf mh obj s ticks))"
  by (induction ticks arbitrary: s) (simp_all add: Let_def split: if_splits)

lemma bucle_cobre_manual_none:
  "fst (bucle_cobre_manual lf mh obj s ticks) = None \<Longrightarrow> pulsos_encoder (snd (bucle_cobre_manual lf mh obj s ticks)) < obj"
  by (induction ticks arbitrary: s) (simp_all add: Let_def split: if_splits)

lemma bucle_cobre_manual_completo:
  "fst (bucle_cobre_manual lf mh obj s ticks) = Some Completed \<Longrightarrow>
   obj \<le> pulsos_encoder (snd (bucle_cobre_manual lf mh obj s ticks)) \<and> \<not> motor_en (snd (bucle_cobre_manual lf mh obj s ticks))"
  by (induction ticks arbitrary: s) (simp_all add: Let_def split: if_splits)

lemma bucle_cobre_manual_tension:
  assumes "fst (bucle_cobre_manual lf mh obj s pre) = None" and "3000 < lf t"
  shows "fst (bucle_cobre_manual lf mh obj s (pre @ t # post)) = Some AbortedByTension
       \<and> \<not> motor_en (snd (bucle_cobre_manual lf mh obj s (pre @ t # post)))
       \<and> bucle_cobre_manual lf mh obj s (pre @ t # post) = bucle_cobre_manual lf mh obj s (pre @ [t])"
  using assms bucle_cobre_manual_none [OF assms(1)] by (simp add: bucle_cobre_manual_sigue Let_def)


subsection \<open>The loop of \<^verbatim>\<open>enrollar_cobre_auto\<close>\<close>

lemma bucle_cobre_auto_alcanzado:
  "\<not> pulsos_encoder s < obj \<Longrightarrow> bucle_cobre_auto lf obj s ticks = (Some Completed, completo_cobre_auto s)"
  by (cases ticks) simp_all

lemma bucle_cobre_auto_append:
  "bucle_cobre_auto lf obj s (pre @ post) =
     (case bucle_cobre_auto lf obj s pre of
        (None, s') \<Rightarrow> bucle_cobre_auto lf obj s' post
      | (Some r, s') \<Rightarrow> (Some r, s'))"
  by (induction pre arbitrary: s) (simp_all add: Let_def bucle_cobre_auto_alcanzado)

lemma bucle_cobre_auto_sigue:
  "fst (bucle_cobre_auto lf obj s pre) = None \<Longrightarrow>
   bucle_cobre_auto lf obj s (pre @ post) = bucle_cobre_auto lf obj (snd (bucle_cobre_auto lf obj s pre)) post"
  by (cases "bucle_cobre_auto lf obj s pre") (simp add: bucle_cobre_auto_append)

lemma bucle_cobre_auto_fin:
  "fst (bucle_cobre_auto lf obj s pre) = Some r \<Longrightarrow> bucle_cobre_auto lf obj s (pre @ post) = bucle_cobre_auto lf obj s pre"
  by (cases "bucle_cobre_auto lf obj s pre") (simp add: bucle_cobre_auto_append)

lemma bucle_cobre_auto_sin_tension:
  "(\<And>t. lf t \<le> 3000) \<Longrightarrow> fst (bucle_cobre_auto lf obj s ticks) \<noteq> Some AbortedByTension"
  by (induction ticks arbitrary: s) (simp_all add: Let_def not_less [symmetric])

lemma bucle_cobre_auto_motor:
  "motor_en s \<Longrightarrow> fst (bucle_cobre_auto lf obj s ticks) = None \<Longrightarrow> motor_en (snd (bucle_cobre_auto lf obj s ticks))"
  by (induction ticks arbitrary: s) (simp_all add: Let_def split: if_splits)

lemma bucle_cobre_auto_none:
  "fst (bucle_cobre_auto lf obj s ticks) = None \<Longrightarrow> pulsos_encoder (snd (bucle_cobre_auto lf obj s ticks)) < obj"
  by (induction ticks arbitrary: s) (simp_all add: Let_def split: if_splits)

lemma bucle_cobre_auto_completo:
  "fst (bucle_cobre_auto lf obj s ticks) = Some Completed \<Longrightarrow>
   obj \<le> pulsos_encoder (snd (bucle_cobre_auto lf obj s ticks)) \<and> \<not> motor_en (snd (bucle_cobre_auto lf obj s ticks))"
  by (induction ticks arbitrary: s) (simp_all add: Let_def split: if_splits)

lemma bucle_cobre_auto_tension:
  assumes "fst (bucle_cobre_auto lf obj s pre) = None" and "3000 < lf t"
  shows "fst (bucle_cobre_auto lf obj s (pre @ t # post)) = Some AbortedByTension
       \<and> \<not> motor_en (snd (bucle_cobre_auto lf obj s (pre @ t # post)))
       \<and> bucle_cobre_auto lf obj s (pre @ t # post) = bucle_cobre_auto lf obj s (pre @ [t])"
  using assms bucle_cobre_auto_none [OF assms(1)] by (simp add: bucle_cobre_auto_sigue Let_def)



section \<open>The distribution oscillator: claims C3 and C8\<close>

lemma barrido_auto:
  "angulos (traza (snd (bucle_auto lf s [t]))) = angulos (traza s) @ [50..130] @ rev [50..130]"
  by (simp add: Let_def angulos_mover del: upto_rec_numeral)

lemma barrido_hasta:
  "pulsos_encoder s < obj \<Longrightarrow>
   angulos (traza (snd (bucle_hasta lf obj s [t]))) = angulos (traza s) @ [50..130] @ rev [50..130]"
  by (simp add: Let_def angulos_mover bucle_hasta_alcanzado del: upto_rec_numeral)

lemma barrido_cobre_manual:
  "pulsos_encoder s < obj \<Longrightarrow>
   angulos (traza (snd (bucle_cobre_manual lf mh obj s [t]))) =
     angulos (traza s) @ [50..130] @ rev [50..130]"
  by (simp add: Let_def angulos_mover bucle_cobre_manual_alcanzado del: upto_rec_numeral)

lemma barrido_cobre_auto:
  "pulsos_encoder s < obj \<Longrightarrow>
   angulos (traza (snd (bucle_cobre_auto lf obj s [t]))) =
     angulos (traza s) @ [50..130] @ rev [50..130]"
  by (simp add: Let_def angulos_mover bucle_cobre_auto_alcanzado del: upto_rec_numeral)

lemma length_angulos_mover:
  "length (angulos (mover_servo_oscilando mn mx p)) = 2 * nat (mx - mn + 1)"
  by (simp add: angulos_mover)

lemma set_angulos_oscilar: "set (angulos (oscilar n mn mx p)) \<subseteq> {mn..mx}"
  by (auto simp: angulos_oscilar)

lemma last_angulos_mover:
  "mn \<le> mx \<Longrightarrow> last (angulos (mover_servo_oscilando mn mx p)) = mn"
  by (simp add: angulos_mover last_rev upto_rec1 [of mn mx])

lemma hd_angulos_mover:
  "mn \<le> mx \<Longrightarrow> hd (angulos (mover_servo_oscilando mn mx p)) = mn"
  by (simp add: angulos_mover upto_rec1 [of mn mx])

lemma angulos_mover_Nil: "mn \<le> mx \<Longrightarrow> angulos (mover_servo_oscilando mn mx p) \<noteq> []"
  by (simp add: angulos_mover)

lemma last_angulos_oscilar:
  "mn \<le> mx \<Longrightarrow> last (angulos (oscilar (Suc n) mn mx p)) = mn"
proof (induction n)
  case 0
  then show ?case by (simp add: last_angulos_mover)
next
  case (Suc n)
  have "angulos (oscilar (Suc n) mn mx p) \<noteq> []"
    using Suc.prems by (simp add: angulos_mover_Nil)
  then have "last (angulos (oscilar (Suc (Suc n)) mn mx p)) = last (angulos (oscilar (Suc n) mn mx p))"
    by (simp only: oscilar.simps(2) [of "Suc n"] angulos_append last_append if_False)
  then show ?case using Suc by simp
qed

lemma ida_vuelta_nth:
  assumes "length xs = Suc k"
  shows "(xs @ rev xs) ! k = xs ! k"
    and "(xs @ rev xs) ! Suc k = xs ! k"
    and "0 < k \<Longrightarrow> (xs @ rev xs) ! Suc (Suc k) = xs ! (k - 1)"
  using assms by (simp_all add: nth_append rev_nth)

lemma giro_arriba:
  assumes "mn \<le> mx"
  shows "angulos (mover_servo_oscilando mn mx p) ! nat (mx - mn) = mx"
    and "angulos (mover_servo_oscilando mn mx p) ! Suc (nat (mx - mn)) = mx"
    and "mn < mx \<Longrightarrow> angulos (mover_servo_oscilando mn mx p) ! Suc (Suc (nat (mx - mn))) = mx - 1"
proof -
  let ?k = "nat (mx - mn)"
  have len: "length [mn..mx] = Suc ?k" using assms by (simp add: Suc_nat_eq_nat_zadd1)
  have top: "[mn..mx] ! ?k = mx" using assms by simp
  show "angulos (mover_servo_oscilando mn mx p) ! ?k = mx"
    unfolding angulos_mover ida_vuelta_nth(1) [OF len] by (rule top)
  show "angulos (mover_servo_oscilando mn mx p) ! Suc ?k = mx"
    unfolding angulos_mover ida_vuelta_nth(2) [OF len] by (rule top)
  assume lt: "mn < mx"
  then have k: "0 < ?k" by simp
  have "[mn..mx] ! (?k - 1) = mx - 1" using lt by (subst nth_upto) simp_all
  then show "angulos (mover_servo_oscilando mn mx p) ! Suc (Suc ?k) = mx - 1"
    unfolding angulos_mover ida_vuelta_nth(3) [OF len k] .
qed

lemma set_angulos_oscilar_Suc: "set (angulos (oscilar (Suc n) mn mx p)) = {mn..mx}"
  using set_angulos_oscilar [of n mn mx p] by (auto simp: angulos_mover)

text \<open>
  Claim C3, as amended. One call of \<open>mover_servo_oscilando\<close> commands the whole sweep: every
  angle from \<open>min_angle\<close> up to \<open>max_angle\<close> and then from \<open>max_angle\<close> back down to
  \<open>min_angle\<close>, one unit of angle at a time, each command followed by a pause of
  \<open>pause_ms\<close>; that is \<open>2 * (max_angle - min_angle + 1)\<close> commands. Every pass through the
  body of a winding loop makes one such call, so the stop and target checks of the loop run
  once for each complete sweep there and back.
\<close>

theorem mover_servo_oscilando_barrido_completo:
  "mover_servo_oscilando mn mx p = concat (map (paso p) ([mn..mx] @ rev [mn..mx]))
   \<and> angulos (mover_servo_oscilando mn mx p) = [mn..mx] @ rev [mn..mx]
   \<and> length (angulos (mover_servo_oscilando mn mx p)) = 2 * nat (mx - mn + 1)
   \<and> angulos (traza (snd (bucle_auto lf s [t]))) =
       angulos (traza s) @ angulos (mover_servo_oscilando 50 130 15)
   \<and> (pulsos_encoder s < obj \<longrightarrow>
       angulos (traza (snd (bucle_hasta lf obj s [t]))) =
         angulos (traza s) @ angulos (mover_servo_oscilando 50 130 15)
     \<and> angulos (traza (snd (bucle_cobre_manual lf mh obj s [t]))) =
         angulos (traza s) @ angulos (mover_servo_oscilando 50 130 15)
     \<and> angulos (traza (snd (bucle_cobre_auto lf obj s [t]))) =
         angulos (traza s) @ angulos (mover_servo_oscilando 50 130 15))"
  using barrido_hasta [of s obj lf t] barrido_cobre_manual [of s obj lf mh t]
    barrido_cobre_auto [of s obj lf t]
  by (simp only: mover_pasos [symmetric] angulos_mover length_angulos_mover barrido_auto)
    simp

text \<open>
  The amended claim C3 at a machine at rest: one pass of each loop with a target, entered
  below the target, commands the full sweep from 50 to 130 and back.
\<close>

theorem mover_servo_oscilando_barrido_completo_witness:
  "pulsos_encoder reposo < 10
   \<and> angulos (traza (snd (bucle_hasta fuerza 10 reposo [gira 3]))) =
       angulos (traza reposo) @ angulos (mover_servo_oscilando 50 130 15)
   \<and> angulos (traza (snd (bucle_cobre_manual fuerza 100 10 reposo [gira 3]))) =
       angulos (traza reposo) @ angulos (mover_servo_oscilando 50 130 15)
   \<and> angulos (traza (snd (bucle_cobre_auto fuerza 10 reposo [gira 3]))) =
       angulos (traza reposo) @ angulos (mover_servo_oscilando 50 130 15)"
proof -
  have h: "pulsos_encoder reposo < 10" by (simp add: reposo_def)
  show ?thesis
    using h mover_servo_oscilando_barrido_completo [of 50 130 15 fuerza reposo "gira 3" 10 100]
    by blast
qed

text \<open>
  Claim C3 as stated fails: a call does not advance the actuator by one unit and stop. The
  call \<^verbatim>\<open>mover_servo_oscilando(50, 130, 15)\<close> issues 162 angle commands, visits every angle
  from 50 to 130, and ends where it began: it completes the sweep up and the sweep down.
\<close>

theorem mover_servo_oscilando_un_paso_counterexample:
  "length (angulos (mover_servo_oscilando 50 130 15)) = 162
   \<and> set (angulos (mover_servo_oscilando 50 130 15)) = {50..130}
   \<and> hd (angulos (mover_servo_oscilando 50 130 15)) = 50
   \<and> last (angulos (mover_servo_oscilando 50 130 15)) = 50"
  by (simp add: angulos_mover del: upto_rec_numeral) (simp add: upto_rec1 [of 50 130])

text \<open>
  Claim C8, as amended. Driven any number of times with bounds \<open>min_angle\<close> and \<open>max_angle\<close>,
  the oscillator never commands an angle outside the bounds. Each call runs up from
  \<open>min_angle\<close> to \<open>max_angle\<close> and back down, so the direction reverses at the two bounds and
  nowhere else. Within a call with \<open>min_angle < max_angle\<close>, the command number
  \<open>max_angle - min_angle\<close> (counting from 0) is \<open>max_angle\<close>, the next command repeats
  \<open>max_angle\<close>, and the one after it is \<open>max_angle - 1\<close>; every call starts and ends at
  \<open>min_angle\<close>.
\<close>

theorem oscilar_dentro_de_limites:
  "(\<forall>a \<in> set (angulos (oscilar n mn mx p)). mn \<le> a \<and> a \<le> mx)
   \<and> angulos (oscilar n mn mx p) = concat (replicate n ([mn..mx] @ rev [mn..mx]))
   \<and> (mn < mx \<longrightarrow>
        angulos (mover_servo_oscilando mn mx p) ! nat (mx - mn) = mx
      \<and> angulos (mover_servo_oscilando mn mx p) ! Suc (nat (mx - mn)) = mx
      \<and> angulos (mover_servo_oscilando mn mx p) ! Suc (Suc (nat (mx - mn))) = mx - 1
      \<and> hd (angulos (mover_servo_oscilando mn mx p)) = mn
      \<and> last (angulos (oscilar (Suc n) mn mx p)) = mn)"
proof -
  have "\<forall>a \<in> set (angulos (oscilar n mn mx p)). mn \<le> a \<and> a \<le> mx"
    using set_angulos_oscilar [of n mn mx p] by auto
  moreover have "mn < mx \<longrightarrow>
        angulos (mover_servo_oscilando mn mx p) ! nat (mx - mn) = mx
      \<and> angulos (mover_servo_oscilando mn mx p) ! Suc (nat (mx - mn)) = mx
      \<and> angulos (mover_servo_oscilando mn mx p) ! Suc (Suc (nat (mx - mn))) = mx - 1
      \<and> hd (angulos (mover_servo_oscilando mn mx p)) = mn
      \<and> last (angulos (oscilar (Suc n) mn mx p)) = mn"
    using giro_arriba [of mn mx p] hd_angulos_mover [of mn mx p]
      last_angulos_oscilar [of mn mx n p] by simp
  ultimately show ?thesis using angulos_oscilar [of n mn mx p] by blast
qed

text \<open>
  The amended claim C8 with the bounds of the firmware, 50 and 130: commands 80 and 81 of a
  call are both 130, command 82 is 129.
\<close>

theorem oscilar_dentro_de_limites_witness:
  "(50::int) < 130
   \<and> 130 \<in> set (angulos (oscilar 2 50 130 15))
   \<and> set (angulos (oscilar 2 50 130 15)) \<subseteq> {50..130}
   \<and> angulos (mover_servo_oscilando 50 130 15) ! 80 = 130
   \<and> angulos (mover_servo_oscilando 50 130 15) ! 81 = 130
   \<and> angulos (mover_servo_oscilando 50 130 15) ! 82 = 129
   \<and> hd (angulos (mover_servo_oscilando 50 130 15)) = 50
   \<and> last (angulos (oscilar (Suc 2) 50 130 15)) = 50"
proof -
  have h: "(50::int) < 130" by simp
  have m: "130 \<in> set (angulos (oscilar 2 50 130 15))"
    unfolding numeral_2_eq_2 set_angulos_oscilar_Suc by simp
  have idx: "nat ((130::int) - 50) = 80" "Suc 80 = 81" "Suc 81 = 82" "(130::int) - 1 = 129"
    by simp_all
  note t = oscilar_dentro_de_limites [of 2 50 130 15, unfolded idx]
  have b: "set (angulos (oscilar 2 50 130 15)) \<subseteq> {50..130}"
    using t by (simp add: subset_iff del: oscilar.simps)
  show ?thesis using h m b t by blast
qed

text \<open>
  Claim C8 as stated fails in its example. After 80 calls the actuator is back at 50, not at
  130. Counting single angle commands instead of calls, command 80 is 130, and the next
  command is 130 again: the step after the bound does not move in the new direction.
\<close>

theorem oscilar_ochenta_pasos_counterexample:
  "last (angulos (oscilar 80 50 130 15)) = 50
   \<and> angulos (oscilar 80 50 130 15) ! 80 = 130
   \<and> angulos (oscilar 80 50 130 15) ! 81 = 130"
proof -
  have s: "(80::nat) = Suc 79" by simp
  have l: "last (angulos (oscilar 80 50 130 15)) = 50"
    unfolding s by (rule last_angulos_oscilar) simp
  have len: "length (angulos (mover_servo_oscilando 50 130 15)) = 162"
    by (simp add: length_angulos_mover)
  have g: "angulos (mover_servo_oscilando 50 130 15) ! 80 = 130"
    "angulos (mover_servo_oscilando 50 130 15) ! 81 = 130"
    using giro_arriba(1,2) [of 50 130 15] by simp_all
  have n: "angulos (oscilar 80 50 130 15) ! 80 = 130" "angulos (oscilar 80 50 130 15) ! 81 = 130"
    unfolding s oscilar.simps angulos_append by (simp_all add: nth_append len g)
  show ?thesis using l n by simp
qed


section \<open>Unit conversion: claims C5 and C6\<close>

lemma PULSOS_POR_METRO_valor: "PULSOS_POR_METRO = 62500000 / 27489"
  by (simp add: PULSOS_POR_METRO_def PULSOS_POR_CM_def CM_POR_VUELTA_def
      DIAMETRO_TAMBOR_CM_def PULSOS_POR_VUELTA_def)

lemma metros_a_pulsos_1: "metros_a_pulsos 1 = 2273"
  by (simp add: metros_a_pulsos_def c_int_def PULSOS_POR_METRO_valor)

lemma metros_a_pulsos_floor:
  assumes "0 \<le> m"
  shows "metros_a_pulsos m = \<lfloor>real_of_int m * PULSOS_POR_METRO\<rfloor>"
proof -
  have "0 \<le> real_of_int m * PULSOS_POR_METRO"
    using assms by (simp add: PULSOS_POR_METRO_valor)
  then show ?thesis by (simp add: metros_a_pulsos_def c_int_def)
qed

text \<open>
  Storing a number in a C floating-point type moves it by at most the fraction \<open>1 / 2\<^sup>p\<close> of
  its size, and leaves an integer below \<open>2\<^sup>p\<close> as it is.
\<close>

lemma redondeo_par_cerca: "\<bar>real_of_int (redondeo_par x) - x\<bar> \<le> 1 / 2"
proof -
  have "real_of_int \<lfloor>x\<rfloor> \<le> x" and "x < real_of_int \<lfloor>x\<rfloor> + 1" by linarith+
  then show ?thesis by (auto simp: redondeo_par_def Let_def)
qed

lemma redondeo_par_entero [simp]: "redondeo_par (real_of_int z) = z"
  by (simp add: redondeo_par_def)

lemma powr_powi_2: "2 powr real_of_int k = (2::real) powi k"
  by (rule powr_real_of_int') simp_all

lemma exponente_binario:
  assumes "x \<noteq> 0"
  shows "2 powi \<lfloor>log 2 \<bar>x\<bar>\<rfloor> \<le> \<bar>x\<bar>" and "\<bar>x\<bar> < 2 powi (\<lfloor>log 2 \<bar>x\<bar>\<rfloor> + 1)"
proof -
  define L where "L = \<lfloor>log 2 \<bar>x\<bar>\<rfloor>"
  have pos: "0 < \<bar>x\<bar>" using assms by simp
  have s: "real_of_int L + 1 = real_of_int (L + 1)" by simp
  have "2 powr real_of_int L \<le> \<bar>x\<bar> \<and> \<bar>x\<bar> < 2 powr (real_of_int L + 1)"
    using floor_log_eq_powr_iff [of "\<bar>x\<bar>" 2 L] pos by (simp add: L_def)
  then have "2 powi L \<le> \<bar>x\<bar> \<and> \<bar>x\<bar> < 2 powi (L + 1)"
    unfolding s powr_powi_2 .
  then show "2 powi \<lfloor>log 2 \<bar>x\<bar>\<rfloor> \<le> \<bar>x\<bar>" and "\<bar>x\<bar> < 2 powi (\<lfloor>log 2 \<bar>x\<bar>\<rfloor> + 1)"
    by (simp_all add: L_def)
qed

lemma binario_cerca: "\<bar>binario p x - x\<bar> \<le> \<bar>x\<bar> / 2 ^ p"
proof (cases "x = 0")
  case True
  then show ?thesis by (simp add: binario_def)
next
  case False
  define L where "L = \<lfloor>log 2 \<bar>x\<bar>\<rfloor>"
  define u :: real where "u = 2 powi (L - int p + 1)"
  have u0: "0 < u" by (simp add: u_def)
  have lo: "2 powi L \<le> \<bar>x\<bar>" unfolding L_def using False by (rule exponente_binario)
  have "u = 2 powi (L + (1 - int p))"
    unfolding u_def by (rule arg_cong [where f = "\<lambda>e. 2 powi e"]) simp
  also have "\<dots> = 2 powi L * 2 powi (1 - int p)"
    by (rule power_int_add) simp
  also have "(2::real) powi (1 - int p) = 2 / 2 ^ p"
    by (simp add: power_int_diff)
  finally have u: "u / 2 = 2 powi L / 2 ^ p" by simp
  have b: "binario p x = real_of_int (redondeo_par (x / u)) * u"
    using False by (simp add: binario_def Let_def L_def u_def)
  have "binario p x - x = (real_of_int (redondeo_par (x / u)) - x / u) * u"
    using u0 by (simp add: b left_diff_distrib)
  then have "\<bar>binario p x - x\<bar> = \<bar>real_of_int (redondeo_par (x / u)) - x / u\<bar> * u"
    using u0 by (simp add: abs_mult)
  also have "\<dots> \<le> 1 / 2 * u"
    using redondeo_par_cerca [of "x / u"] u0 by (intro mult_right_mono) simp_all
  also have "\<dots> = 2 powi L / 2 ^ p" using u by simp
  also have "\<dots> \<le> \<bar>x\<bar> / 2 ^ p" using lo by (simp add: divide_right_mono)
  finally show ?thesis .
qed

lemma binario_entero:
  assumes "\<bar>n\<bar> < 2 ^ p"
  shows "binario p (real_of_int n) = real_of_int n"
proof (cases "n = 0")
  case True
  then show ?thesis by (simp add: binario_def)
next
  case False
  define L where "L = \<lfloor>log 2 \<bar>real_of_int n\<bar>\<rfloor>"
  have n0: "real_of_int n \<noteq> 0" using False by simp
  have lo: "2 powi L \<le> \<bar>real_of_int n\<bar>" unfolding L_def using n0 by (rule exponente_binario)
  have "real_of_int \<bar>n\<bar> < real_of_int (2 ^ p)" using assms by (simp only: of_int_less_iff)
  then have hi: "\<bar>real_of_int n\<bar> < 2 powi int p" by simp
  have "L < int p"
  proof (rule ccontr)
    assume "\<not> L < int p"
    then have "(2::real) powi int p \<le> 2 powi L" by (intro power_int_increasing) simp_all
    then show False using lo hi by linarith
  qed
  define k where "k = nat (int p - 1 - L)"
  have e: "L - int p + 1 = - int k" using \<open>L < int p\<close> by (simp add: k_def)
  have u: "(2::real) powi (L - int p + 1) = 1 / 2 ^ k"
    unfolding e by (simp add: power_int_minus inverse_eq_divide)
  have "real_of_int n / (1 / 2 ^ k) = real_of_int (n * 2 ^ k)" by simp
  then have r: "redondeo_par (real_of_int n / (1 / 2 ^ k)) = n * 2 ^ k"
    by (simp only: redondeo_par_entero)
  have "binario p (real_of_int n) =
      real_of_int (redondeo_par (real_of_int n / (1 / 2 ^ k))) * (1 / 2 ^ k)"
    using n0 by (simp only: binario_def Let_def L_def [symmetric] u if_False)
  then show ?thesis unfolding r by simp
qed

lemma binario_valor:
  assumes "0 < x" and "2 powi L \<le> x" and "x < 2 powi (L + 1)"
  shows "binario p x =
    real_of_int (redondeo_par (x / 2 powi (L - int p + 1))) * 2 powi (L - int p + 1)"
proof -
  have s: "real_of_int L + 1 = real_of_int (L + 1)" by simp
  have "2 powr real_of_int L \<le> x \<and> x < 2 powr (real_of_int L + 1)"
    unfolding s powr_powi_2 using assms by simp
  then have "\<lfloor>log 2 x\<rfloor> = L"
    using assms(1) floor_log_eq_powr_iff [of x 2 L] by simp
  then show ?thesis using assms(1) by (simp add: binario_def Let_def)
qed

lemma metros_a_pulsos_rango:
  assumes "0 \<le> m" and "m \<le> 999"
  shows "0 \<le> metros_a_pulsos m" and "\<bar>metros_a_pulsos m\<bar> < 2 ^ 24"
proof -
  have f: "metros_a_pulsos m = \<lfloor>real_of_int m * PULSOS_POR_METRO\<rfloor>"
    using assms(1) by (rule metros_a_pulsos_floor)
  have "0 \<le> real_of_int m * PULSOS_POR_METRO"
    using assms(1) by (simp add: PULSOS_POR_METRO_valor)
  then show a: "0 \<le> metros_a_pulsos m" unfolding f by simp
  have "real_of_int m \<le> 999" using assms(2) by simp
  then have "real_of_int m * PULSOS_POR_METRO < 2 ^ 24"
    by (simp add: PULSOS_POR_METRO_valor)
  then have "metros_a_pulsos m < 2 ^ 24" unfolding f by (simp add: floor_less_iff)
  then show "\<bar>metros_a_pulsos m\<bar> < 2 ^ 24" using a by simp
qed

lemma cociente_exacto:
  assumes "0 \<le> m"
  shows "0 \<le> real_of_int m - real_of_int (metros_a_pulsos m) / PULSOS_POR_METRO"
    and "real_of_int m - real_of_int (metros_a_pulsos m) / PULSOS_POR_METRO < 1 / PULSOS_POR_METRO"
    and "0 \<le> real_of_int (metros_a_pulsos m) / PULSOS_POR_METRO"
proof -
  have pos: "0 < PULSOS_POR_METRO" by (simp add: PULSOS_POR_METRO_valor)
  let ?x = "real_of_int m * PULSOS_POR_METRO"
  have x0: "0 \<le> ?x" using assms pos by simp
  have p: "metros_a_pulsos m = \<lfloor>?x\<rfloor>" using assms by (rule metros_a_pulsos_floor)
  have le: "real_of_int \<lfloor>?x\<rfloor> \<le> ?x" by (rule of_int_floor_le)
  have lt: "?x < real_of_int \<lfloor>?x\<rfloor> + 1" by linarith
  have "real_of_int \<lfloor>?x\<rfloor> / PULSOS_POR_METRO \<le> real_of_int m"
    using le pos by (simp add: pos_divide_le_eq)
  then show "0 \<le> real_of_int m - real_of_int (metros_a_pulsos m) / PULSOS_POR_METRO"
    by (simp add: p)
  have "real_of_int m < (real_of_int \<lfloor>?x\<rfloor> + 1) / PULSOS_POR_METRO"
    using lt pos by (simp add: pos_less_divide_eq)
  then show "real_of_int m - real_of_int (metros_a_pulsos m) / PULSOS_POR_METRO
      < 1 / PULSOS_POR_METRO"
    by (simp add: p add_divide_distrib)
  have "0 \<le> \<lfloor>?x\<rfloor>" using x0 by simp
  then show "0 \<le> real_of_int (metros_a_pulsos m) / PULSOS_POR_METRO"
    using pos by (simp add: p)
qed

lemma pulsos_a_metros_cerca:
  assumes "\<bar>n\<bar> < 2 ^ 24" and "0 \<le> real_of_int n / PULSOS_POR_METRO"
  shows "\<bar>pulsos_a_metros n - real_of_int n / PULSOS_POR_METRO\<bar>
    \<le> real_of_int n / PULSOS_POR_METRO / 2 ^ 23"
proof -
  define q where "q = real_of_int n / PULSOS_POR_METRO"
  define d where "d = c_double q"
  have q0: "0 \<le> q" using assms(2) by (simp add: q_def)
  have e: "c_float (real_of_int n) = real_of_int n"
    unfolding c_float_def using assms(1) by (rule binario_entero)
  have r: "pulsos_a_metros n = c_float d"
    by (simp add: pulsos_a_metros_def e d_def q_def)
  have a: "\<bar>d - q\<bar> \<le> q / 2 ^ 53"
    using binario_cerca [of 53 q] q0 by (simp add: d_def c_double_def)
  have b: "\<bar>c_float d - d\<bar> \<le> \<bar>d\<bar> / 2 ^ 24"
    using binario_cerca [of 24 d] by (simp add: c_float_def)
  have d1: "\<bar>d\<bar> \<le> q + q / 2 ^ 53" using a q0 by linarith
  have "\<bar>c_float d - q\<bar> \<le> \<bar>c_float d - d\<bar> + \<bar>d - q\<bar>" by linarith
  also have "\<dots> \<le> \<bar>d\<bar> / 2 ^ 24 + q / 2 ^ 53" using a b by linarith
  also have "\<dots> \<le> (q + q / 2 ^ 53) / 2 ^ 24 + q / 2 ^ 53"
    using d1 by (simp add: divide_right_mono)
  also have "\<dots> \<le> q / 2 ^ 23" using q0 by simp
  finally have "\<bar>c_float d - q\<bar> \<le> q / 2 ^ 23" .
  then show ?thesis by (simp add: r q_def)
qed

lemma ida_y_vuelta:
  assumes "0 \<le> m" and "m \<le> 999"
  shows "- (real_of_int m / 2 ^ 23) \<le> real_of_int m - pulsos_a_metros (metros_a_pulsos m)"
    and "real_of_int m - pulsos_a_metros (metros_a_pulsos m)
      < 1 / PULSOS_POR_METRO + real_of_int m / 2 ^ 23"
proof -
  define q where "q = real_of_int (metros_a_pulsos m) / PULSOS_POR_METRO"
  have c: "0 \<le> real_of_int m - q" "real_of_int m - q < 1 / PULSOS_POR_METRO" "0 \<le> q"
    unfolding q_def using assms(1) by (rule cociente_exacto)+
  have "\<bar>pulsos_a_metros (metros_a_pulsos m) - q\<bar> \<le> q / 2 ^ 23"
    unfolding q_def
    using metros_a_pulsos_rango(2) [OF assms] c(3) [unfolded q_def]
    by (rule pulsos_a_metros_cerca)
  moreover have "q / 2 ^ 23 \<le> real_of_int m / 2 ^ 23" using c(1) by simp
  ultimately show "- (real_of_int m / 2 ^ 23) \<le> real_of_int m - pulsos_a_metros (metros_a_pulsos m)"
    and "real_of_int m - pulsos_a_metros (metros_a_pulsos m)
      < 1 / PULSOS_POR_METRO + real_of_int m / 2 ^ 23"
    using c(1,2) by linarith+
qed

lemma metros_a_pulsos_223: "metros_a_pulsos 223 = 507020"
  by (simp add: metros_a_pulsos_def c_int_def PULSOS_POR_METRO_valor)

lemma c_float_entero: "\<bar>n\<bar> < 2 ^ 24 \<Longrightarrow> c_float (real_of_int n) = real_of_int n"
  unfolding c_float_def by (rule binario_entero)

lemma pulsos_a_metros_507020: "pulsos_a_metros 507020 = 14614499 / 65536"
proof -
  have e: "c_float (real_of_int 507020) = real_of_int 507020"
    by (rule c_float_entero) simp
  have q: "real_of_int 507020 / PULSOS_POR_METRO = 696873639 / 3125000"
    by (simp add: PULSOS_POR_METRO_valor)
  have d: "c_double (696873639 / 3125000) = 7846099652311804 / 2 ^ 45"
    unfolding c_double_def
    by (subst binario_valor [where L = 7]) (simp_all add: redondeo_par_def Let_def)
  have f: "c_float (7846099652311804 / 2 ^ 45) = 14614499 / 65536"
    unfolding c_float_def
    by (subst binario_valor [where L = 7]) (simp_all add: redondeo_par_def Let_def)
  show ?thesis
    unfolding pulsos_a_metros_def e q d f ..
qed

lemma pulsos_a_metros_2273: "pulsos_a_metros 2273 = 8386259 / 8388608"
proof -
  have e: "c_float (real_of_int 2273) = real_of_int 2273"
    by (rule c_float_entero) simp
  have q: "real_of_int 2273 / PULSOS_POR_METRO = 62482497 / 62500000"
    by (simp add: PULSOS_POR_METRO_valor)
  have d: "c_double (62482497 / 62500000) = 9004676806604100 / 2 ^ 53"
    unfolding c_double_def
    by (subst binario_valor [where L = "- 1"]) (simp_all add: redondeo_par_def Let_def)
  have f: "c_float (9004676806604100 / 2 ^ 53) = 8386259 / 8388608"
    unfolding c_float_def
    by (subst binario_valor [where L = "- 1"]) (simp_all add: redondeo_par_def Let_def)
  show ?thesis
    unfolding pulsos_a_metros_def e q d f ..
qed

text \<open>
  Claim C5, as amended. With \<open>PULSOS_POR_CM = PULSOS_POR_VUELTA / (3.1416 * DIAMETRO_TAMBOR_CM)\<close>,
  the pulse target of a number of metres from 0 to 999, the range the operator can select,
  is the whole part of \<open>metros * 100 * PULSOS_POR_CM\<close>: the conversion to \<^verbatim>\<open>int\<close> drops the
  fraction. Converting the target back to metres, with the rounding of the C \<^verbatim>\<open>float\<close> that
  holds the result, therefore recovers the metres to within one pulse and the rounding of a
  single-precision number: the loss is at least \<open>- metros / 2\<^sup>2\<^sup>3\<close> and less than
  \<open>1 / PULSOS_POR_METRO + metros / 2\<^sup>2\<^sup>3\<close> metres.
\<close>

theorem metros_a_pulsos_ida_y_vuelta:
  assumes "0 \<le> metros" and "metros \<le> 999"
  shows "PULSOS_POR_CM = PULSOS_POR_VUELTA / (3.1416 * DIAMETRO_TAMBOR_CM)
       \<and> metros_a_pulsos metros = \<lfloor>real_of_int metros * 100 * PULSOS_POR_CM\<rfloor>
       \<and> - (real_of_int metros / 2 ^ 23) \<le>
           real_of_int metros - pulsos_a_metros (metros_a_pulsos metros)
       \<and> real_of_int metros - pulsos_a_metros (metros_a_pulsos metros) <
           1 / PULSOS_POR_METRO + real_of_int metros / 2 ^ 23"
proof -
  have e: "real_of_int metros * PULSOS_POR_METRO = real_of_int metros * 100 * PULSOS_POR_CM"
    by (simp add: PULSOS_POR_METRO_def)
  have c: "PULSOS_POR_CM = PULSOS_POR_VUELTA / (3.1416 * DIAMETRO_TAMBOR_CM)"
    by (simp add: PULSOS_POR_CM_def CM_POR_VUELTA_def)
  have f: "metros_a_pulsos metros = \<lfloor>real_of_int metros * 100 * PULSOS_POR_CM\<rfloor>"
    using metros_a_pulsos_floor [OF assms(1)] unfolding e .
  show ?thesis
    by (intro conjI c f ida_y_vuelta [OF assms])
qed

text \<open>
  The amended claim C5 at 223 metres: the target is 507020 pulses, and the \<^verbatim>\<open>float\<close> that
  holds the metres of 507020 pulses is 14614499/65536. The loss, 29/65536 of a metre, is more
  than one pulse and within the amended bound.
\<close>

theorem metros_a_pulsos_ida_y_vuelta_witness:
  "(0::int) \<le> 223 \<and> (223::int) \<le> 999
   \<and> metros_a_pulsos 223 = 507020
   \<and> pulsos_a_metros (metros_a_pulsos 223) = 14614499 / 65536
   \<and> 1 / PULSOS_POR_METRO < real_of_int 223 - pulsos_a_metros (metros_a_pulsos 223)
   \<and> - (real_of_int 223 / 2 ^ 23) \<le> real_of_int 223 - pulsos_a_metros (metros_a_pulsos 223)
   \<and> real_of_int 223 - pulsos_a_metros (metros_a_pulsos 223) <
       1 / PULSOS_POR_METRO + real_of_int 223 / 2 ^ 23"
proof -
  have h: "(0::int) \<le> 223" "(223::int) \<le> 999" by simp_all
  note t = metros_a_pulsos_ida_y_vuelta [OF h]
  have v: "pulsos_a_metros (metros_a_pulsos 223) = 14614499 / 65536"
    by (simp only: metros_a_pulsos_223 pulsos_a_metros_507020)
  have g: "1 / PULSOS_POR_METRO < real_of_int 223 - pulsos_a_metros (metros_a_pulsos 223)"
    unfolding v by (simp add: PULSOS_POR_METRO_valor)
  show ?thesis
    by (intro conjI h metros_a_pulsos_223 v g
        t [THEN conjunct2, THEN conjunct2, THEN conjunct1]
        t [THEN conjunct2, THEN conjunct2, THEN conjunct2])
qed

text \<open>
  Claim C5 as stated fails at one metre. The target is 2273 pulses, more than 0.6 below
  \<open>1 * 100 * PULSOS_POR_CM\<close>, and the \<^verbatim>\<open>float\<close> that holds the metres of 2273 pulses is
  8386259/8388608: the loss exceeds 2000 times the spacing \<open>2\<^sup>-\<^sup>2\<^sup>3\<close> of single-precision numbers
  next to 1, so it is no floating-point rounding.
\<close>

theorem metros_a_pulsos_ida_y_vuelta_counterexample:
  "metros_a_pulsos 1 = 2273
   \<and> real_of_int (metros_a_pulsos 1) < real_of_int 1 * 100 * PULSOS_POR_CM - 6 / 10
   \<and> pulsos_a_metros (metros_a_pulsos 1) = 8386259 / 8388608
   \<and> 2000 / 2 ^ 23 < real_of_int 1 - pulsos_a_metros (metros_a_pulsos 1)"
proof -
  have v: "pulsos_a_metros (metros_a_pulsos 1) = 8386259 / 8388608"
    by (simp only: metros_a_pulsos_1 pulsos_a_metros_2273)
  have a: "real_of_int (metros_a_pulsos 1) < real_of_int 1 * 100 * PULSOS_POR_CM - 6 / 10"
    by (simp add: metros_a_pulsos_1 PULSOS_POR_CM_def CM_POR_VUELTA_def DIAMETRO_TAMBOR_CM_def
        PULSOS_POR_VUELTA_def)
  have b: "2000 / 2 ^ 23 < real_of_int 1 - pulsos_a_metros (metros_a_pulsos 1)"
    unfolding v by simp
  show ?thesis by (intro conjI metros_a_pulsos_1 a v b)
qed

lemma calcular_N_solenoide:
  "calcular_vueltas_para_mH m = c_int (N_solenoide m + 1 / 2)"
  by (simp add: calcular_vueltas_para_mH_def N_solenoide_def Let_def)

lemma N_solenoide_raiz:
  "N_solenoide m = sqrt (real_of_int m * (3906250000000 / 107949303))"
  unfolding N_solenoide_def by (rule arg_cong [where f = sqrt]) simp

lemma N_solenoide_nonneg: "0 \<le> m \<Longrightarrow> 0 \<le> N_solenoide m"
  by (simp add: N_solenoide_def)

lemma N_solenoide_mono: "a \<le> b \<Longrightarrow> N_solenoide a \<le> N_solenoide b"
  by (simp add: N_solenoide_def divide_right_mono)

lemma calcular_floor:
  "0 \<le> m \<Longrightarrow> calcular_vueltas_para_mH m = \<lfloor>N_solenoide m + 1 / 2\<rfloor>"
  using N_solenoide_nonneg [of m] by (simp add: calcular_N_solenoide c_int_def)

lemma calcular_mono:
  "0 \<le> a \<Longrightarrow> a \<le> b \<Longrightarrow> calcular_vueltas_para_mH a \<le> calcular_vueltas_para_mH b"
  by (simp add: calcular_floor N_solenoide_mono floor_mono)

lemma N_solenoide_ge_1: assumes "1 \<le> m" shows "1 \<le> N_solenoide m"
proof -
  have "1 \<le> real_of_int m * (3906250000000 / 107949303)" using assms by simp
  then show ?thesis unfolding N_solenoide_raiz by (rule real_sqrt_ge_one)
qed

lemma calcular_pos: assumes "1 \<le> m" shows "0 < calcular_vueltas_para_mH m"
proof -
  have "1 \<le> \<lfloor>N_solenoide m + 1 / 2\<rfloor>" using N_solenoide_ge_1 [OF assms] by linarith
  then show ?thesis using assms by (simp add: calcular_floor)
qed

lemma calcular_valor:
  assumes m: "0 \<le> m" and n: "1 \<le> n"
    and lo: "(real_of_int n - 1 / 2)\<^sup>2 \<le> real_of_int m * (3906250000000 / 107949303)"
    and hi: "real_of_int m * (3906250000000 / 107949303) < (real_of_int n + 1 / 2)\<^sup>2"
  shows "calcular_vueltas_para_mH m = n"
proof -
  have "real_of_int n - 1 / 2 \<le> N_solenoide m"
    unfolding N_solenoide_raiz using lo by (rule real_le_rsqrt)
  moreover have "N_solenoide m < real_of_int n + 1 / 2"
    unfolding N_solenoide_raiz using n hi by (intro real_less_lsqrt) simp_all
  ultimately have "\<lfloor>N_solenoide m + 1 / 2\<rfloor> = n" by linarith
  then show ?thesis using m by (simp add: calcular_floor)
qed

lemma calcular_1000: "calcular_vueltas_para_mH 1000 = 6015"
  by (rule calcular_valor) (simp_all add: power2_eq_square)

lemma calcular_10: "calcular_vueltas_para_mH 10 = 602"
  by (rule calcular_valor) (simp_all add: power2_eq_square)

lemma calcular_100: "calcular_vueltas_para_mH 100 = 1902"
  by (rule calcular_valor) (simp_all add: power2_eq_square)

lemma calcular_2000: "calcular_vueltas_para_mH 2000 = 8507"
  by (rule calcular_valor) (simp_all add: power2_eq_square)

text \<open>
  Claim C6. For \<open>milihenrios\<close> from 10 to 2000, \<open>calcular_vueltas_para_mH\<close> returns a positive
  integer, non-decreasing in \<open>milihenrios\<close>. It is \<open>N = sqrt (L h / (\<mu>\<^sub>0 A))\<close> with
  \<open>L = milihenrios / 1000\<close>, rounded to the nearest integer with halves rounded up: the
  result \<open>n\<close> is \<open>\<lfloor>N + 1/2\<rfloor>\<close>, that is \<open>n - 1/2 \<le> N < n + 1/2\<close>. (The arithmetic is exact; the
  rounding of the single floating-point operations is not part of the model.)
\<close>

theorem calcular_vueltas_para_mH_monotona:
  assumes "10 \<le> a" and "a \<le> b" and "b \<le> 2000"
  shows "0 < calcular_vueltas_para_mH a
       \<and> calcular_vueltas_para_mH a \<le> calcular_vueltas_para_mH b
       \<and> calcular_vueltas_para_mH a = \<lfloor>N_solenoide a + 1 / 2\<rfloor>
       \<and> real_of_int (calcular_vueltas_para_mH a) - 1 / 2 \<le> N_solenoide a
       \<and> N_solenoide a < real_of_int (calcular_vueltas_para_mH a) + 1 / 2"
proof -
  have a0: "0 \<le> a" and a1: "1 \<le> a" using assms(1) by simp_all
  have f: "calcular_vueltas_para_mH a = \<lfloor>N_solenoide a + 1 / 2\<rfloor>"
    using a0 by (rule calcular_floor)
  have "real_of_int \<lfloor>N_solenoide a + 1 / 2\<rfloor> - 1 / 2 \<le> N_solenoide a" by linarith
  moreover have "N_solenoide a < real_of_int \<lfloor>N_solenoide a + 1 / 2\<rfloor> + 1 / 2" by linarith
  ultimately show ?thesis
    using calcular_pos [OF a1] calcular_mono [OF a0 assms(2)] f by simp
qed

text \<open>
  Claim C6 at the two ends of the range: 602 turns for 10 mH and 8507 turns for 2000 mH.
\<close>

theorem calcular_vueltas_para_mH_monotona_witness:
  "(10::int) \<le> 10 \<and> (10::int) \<le> 2000 \<and> (2000::int) \<le> 2000
   \<and> calcular_vueltas_para_mH 10 = 602
   \<and> calcular_vueltas_para_mH 2000 = 8507
   \<and> 0 < calcular_vueltas_para_mH 10
   \<and> calcular_vueltas_para_mH 10 \<le> calcular_vueltas_para_mH 2000
   \<and> real_of_int (calcular_vueltas_para_mH 10) - 1 / 2 \<le> N_solenoide 10
   \<and> N_solenoide 10 < real_of_int (calcular_vueltas_para_mH 10) + 1 / 2"
proof -
  have h: "(10::int) \<le> 10" "(10::int) \<le> 2000" "(2000::int) \<le> 2000" by simp_all
  note t = calcular_vueltas_para_mH_monotona [OF h]
  show ?thesis
    by (intro conjI h calcular_10 calcular_2000 t [THEN conjunct1]
        t [THEN conjunct2, THEN conjunct1]
        t [THEN conjunct2, THEN conjunct2, THEN conjunct2, THEN conjunct1]
        t [THEN conjunct2, THEN conjunct2, THEN conjunct2, THEN conjunct2])
qed


section \<open>The pulse count along a run\<close>

text \<open>
  As long as the count stays within the C \<^verbatim>\<open>int\<close>, a loop leaves the count between its
  value at the start and that value plus the edges delivered, and a loop that is still
  running has counted every edge.
\<close>

lemma bucle_auto_pulsos:
  "0 \<le> pulsos_encoder s \<Longrightarrow>
   pulsos_encoder s + int (sum_list (map flancos ticks)) < 2 ^ 31 \<Longrightarrow>
   pulsos_encoder s \<le> pulsos_encoder (snd (bucle_auto lf s ticks))
   \<and> pulsos_encoder (snd (bucle_auto lf s ticks)) \<le> pulsos_encoder s + int (sum_list (map flancos ticks))
   \<and> (fst (bucle_auto lf s ticks) = None \<longrightarrow>
        pulsos_encoder (snd (bucle_auto lf s ticks)) = pulsos_encoder s + int (sum_list (map flancos ticks)))"
proof (induction ticks arbitrary: s)
  case Nil
  then show ?case by simp
next
  case (Cons t ts)
  define s2 where "s2 = interrupciones (flancos t) (oscila_servo 50 130 15 (progreso_auto s))"
  have p: "pulsos_encoder s2 = pulsos_encoder s + int (flancos t)"
    unfolding s2_def using Cons.prems by (subst pulsos_interrupciones) simp_all
  have "pulsos_encoder s2 \<le> pulsos_encoder (snd (bucle_auto lf s2 ts))
      \<and> pulsos_encoder (snd (bucle_auto lf s2 ts)) \<le> pulsos_encoder s2 + int (sum_list (map flancos ts))
      \<and> (fst (bucle_auto lf s2 ts) = None \<longrightarrow>
           pulsos_encoder (snd (bucle_auto lf s2 ts)) = pulsos_encoder s2 + int (sum_list (map flancos ts)))"
    using Cons.prems p by (intro Cons.IH) simp_all
  then show ?case
    using p by (simp add: Let_def s2_def [symmetric])
qed

lemma bucle_auto_prefijo:
  assumes "0 \<le> pulsos_encoder s"
    and "pulsos_encoder s + int (sum_list (map flancos (pre @ post))) < 2 ^ 31"
  shows "pulsos_encoder (snd (bucle_auto lf s pre)) \<le> pulsos_encoder (snd (bucle_auto lf s (pre @ post)))"
proof (cases "fst (bucle_auto lf s pre)")
  case None
  let ?s = "snd (bucle_auto lf s pre)"
  have a: "pulsos_encoder s \<le> pulsos_encoder ?s
      \<and> pulsos_encoder ?s \<le> pulsos_encoder s + int (sum_list (map flancos pre))"
    using assms bucle_auto_pulsos [of s pre] by simp
  then have "pulsos_encoder ?s \<le> pulsos_encoder (snd (bucle_auto lf ?s post))"
    using assms bucle_auto_pulsos [of ?s post] by simp
  then show ?thesis using None by (simp add: bucle_auto_sigue)
next
  case (Some r)
  then show ?thesis by (simp add: bucle_auto_fin)
qed

lemma bucle_hasta_pulsos:
  "0 \<le> pulsos_encoder s \<Longrightarrow>
   pulsos_encoder s + int (sum_list (map flancos ticks)) < 2 ^ 31 \<Longrightarrow>
   pulsos_encoder s \<le> pulsos_encoder (snd (bucle_hasta lf obj s ticks))
   \<and> pulsos_encoder (snd (bucle_hasta lf obj s ticks)) \<le> pulsos_encoder s + int (sum_list (map flancos ticks))
   \<and> (fst (bucle_hasta lf obj s ticks) = None \<longrightarrow>
        pulsos_encoder (snd (bucle_hasta lf obj s ticks)) = pulsos_encoder s + int (sum_list (map flancos ticks)))"
proof (induction ticks arbitrary: s)
  case Nil
  then show ?case by simp
next
  case (Cons t ts)
  define s2 where "s2 = interrupciones (flancos t) (oscila_servo 50 130 15 (progreso_hasta s))"
  have p: "pulsos_encoder s2 = pulsos_encoder s + int (flancos t)"
    unfolding s2_def using Cons.prems by (subst pulsos_interrupciones) simp_all
  have "pulsos_encoder s2 \<le> pulsos_encoder (snd (bucle_hasta lf obj s2 ts))
      \<and> pulsos_encoder (snd (bucle_hasta lf obj s2 ts)) \<le> pulsos_encoder s2 + int (sum_list (map flancos ts))
      \<and> (fst (bucle_hasta lf obj s2 ts) = None \<longrightarrow>
           pulsos_encoder (snd (bucle_hasta lf obj s2 ts)) = pulsos_encoder s2 + int (sum_list (map flancos ts)))"
    using Cons.prems p by (intro Cons.IH) simp_all
  then show ?case
    using p by (simp add: Let_def s2_def [symmetric])
qed

lemma bucle_hasta_prefijo:
  assumes "0 \<le> pulsos_encoder s"
    and "pulsos_encoder s + int (sum_list (map flancos (pre @ post))) < 2 ^ 31"
  shows "pulsos_encoder (snd (bucle_hasta lf obj s pre)) \<le> pulsos_encoder (snd (bucle_hasta lf obj s (pre @ post)))"
proof (cases "fst (bucle_hasta lf obj s pre)")
  case None
  let ?s = "snd (bucle_hasta lf obj s pre)"
  have a: "pulsos_encoder s \<le> pulsos_encoder ?s
      \<and> pulsos_encoder ?s \<le> pulsos_encoder s + int (sum_list (map flancos pre))"
    using assms bucle_hasta_pulsos [of s pre] by simp
  then have "pulsos_encoder ?s \<le> pulsos_encoder (snd (bucle_hasta lf obj ?s post))"
    using assms bucle_hasta_pulsos [of ?s post] by simp
  then show ?thesis using None by (simp add: bucle_hasta_sigue)
next
  case (Some r)
  then show ?thesis by (simp add: bucle_hasta_fin)
qed

lemma bucle_hasta_llega:
  assumes "fst (bucle_hasta lf obj s pre) = None" and "lf t \<le> 3000"
    and "obj \<le> pulsos_encoder (interrupciones (flancos t) (snd (bucle_hasta lf obj s pre)))"
  shows "fst (bucle_hasta lf obj s (pre @ t # post)) = Some Completed
       \<and> bucle_hasta lf obj s (pre @ t # post) = bucle_hasta lf obj s (pre @ [t])"
proof -
  let ?s = "snd (bucle_hasta lf obj s pre)"
  define s2 where "s2 = interrupciones (flancos t) (oscila_servo 50 130 15 (progreso_hasta ?s))"
  have "pulsos_encoder s2 = pulsos_encoder (interrupciones (flancos t) ?s)"
    unfolding s2_def by (simp add: pulsos_interrupciones_gen)
  then have "\<not> pulsos_encoder s2 < obj" using assms by simp
  then have "\<And>ticks. bucle_hasta lf obj s2 ticks = bucle_hasta lf obj s2 []"
    by (simp add: bucle_hasta_alcanzado)
  then have r: "bucle_hasta lf obj s2 post = bucle_hasta lf obj s2 []" and c: "fst (bucle_hasta lf obj s2 []) = Some Completed"
    using \<open>\<not> pulsos_encoder s2 < obj\<close> by simp_all
  show ?thesis
    using assms(1-2) bucle_hasta_none [OF assms(1)] r c
    by (simp add: bucle_hasta_sigue Let_def s2_def [symmetric])
qed

lemma bucle_cobre_manual_pulsos:
  "0 \<le> pulsos_encoder s \<Longrightarrow>
   pulsos_encoder s + int (sum_list (map flancos ticks)) < 2 ^ 31 \<Longrightarrow>
   pulsos_encoder s \<le> pulsos_encoder (snd (bucle_cobre_manual lf mh obj s ticks))
   \<and> pulsos_encoder (snd (bucle_cobre_manual lf mh obj s ticks)) \<le> pulsos_encoder s + int (sum_list (map flancos ticks))
   \<and> (fst (bucle_cobre_manual lf mh obj s ticks) = None \<longrightarrow>
        pulsos_encoder (snd (bucle_cobre_manual lf mh obj s ticks)) = pulsos_encoder s + int (sum_list (map flancos ticks)))"
proof (induction ticks arbitrary: s)
  case Nil
  then show ?case by simp
next
  case (Cons t ts)
  define s2 where "s2 = interrupciones (flancos t) (oscila_servo 50 130 15 (progreso_cobre ''Cobre Manual...'' s))"
  have p: "pulsos_encoder s2 = pulsos_encoder s + int (flancos t)"
    unfolding s2_def using Cons.prems by (subst pulsos_interrupciones) simp_all
  have "pulsos_encoder s2 \<le> pulsos_encoder (snd (bucle_cobre_manual lf mh obj s2 ts))
      \<and> pulsos_encoder (snd (bucle_cobre_manual lf mh obj s2 ts)) \<le> pulsos_encoder s2 + int (sum_list (map flancos ts))
      \<and> (fst (bucle_cobre_manual lf mh obj s2 ts) = None \<longrightarrow>
           pulsos_encoder (snd (bucle_cobre_manual lf mh obj s2 ts)) = pulsos_encoder s2 + int (sum_list (map flancos ts)))"
    using Cons.prems p by (intro Cons.IH) simp_all
  then show ?case
    using p by (simp add: Let_def s2_def [symmetric])
qed

lemma bucle_cobre_manual_prefijo:
  assumes "0 \<le> pulsos_encoder s"
    and "pulsos_encoder s + int (sum_list (map flancos (pre @ post))) < 2 ^ 31"
  shows "pulsos_encoder (snd (bucle_cobre_manual lf mh obj s pre)) \<le> pulsos_encoder (snd (bucle_cobre_manual lf mh obj s (pre @ post)))"
proof (cases "fst (bucle_cobre_manual lf mh obj s pre)")
  case None
  let ?s = "snd (bucle_cobre_manual lf mh obj s pre)"
  have a: "pulsos_encoder s \<le> pulsos_encoder ?s
      \<and> pulsos_encoder ?s \<le> pulsos_encoder s + int (sum_list (map flancos pre))"
    using assms bucle_cobre_manual_pulsos [of s pre] by simp
  then have "pulsos_encoder ?s \<le> pulsos_encoder (snd (bucle_cobre_manual lf mh obj ?s post))"
    using assms bucle_cobre_manual_pulsos [of ?s post] by simp
  then show ?thesis using None by (simp add: bucle_cobre_manual_sigue)
next
  case (Some r)
  then show ?thesis by (simp add: bucle_cobre_manual_fin)
qed

lemma bucle_cobre_manual_llega:
  assumes "fst (bucle_cobre_manual lf mh obj s pre) = None" and "lf t \<le> 3000" and "rot_sw t"
    and "obj \<le> pulsos_encoder (interrupciones (flancos t) (snd (bucle_cobre_manual lf mh obj s pre)))"
  shows "fst (bucle_cobre_manual lf mh obj s (pre @ t # post)) = Some Completed
       \<and> bucle_cobre_manual lf mh obj s (pre @ t # post) = bucle_cobre_manual lf mh obj s (pre @ [t])"
proof -
  let ?s = "snd (bucle_cobre_manual lf mh obj s pre)"
  define s2 where "s2 = interrupciones (flancos t) (oscila_servo 50 130 15 (progreso_cobre ''Cobre Manual...'' ?s))"
  have "pulsos_encoder s2 = pulsos_encoder (interrupciones (flancos t) ?s)"
    unfolding s2_def by (simp add: pulsos_interrupciones_gen)
  then have "\<not> pulsos_encoder s2 < obj" using assms by simp
  then have "\<And>ticks. bucle_cobre_manual lf mh obj s2 ticks = bucle_cobre_manual lf mh obj s2 []"
    by (simp add: bucle_cobre_manual_alcanzado)
  then have r: "bucle_cobre_manual lf mh obj s2 post = bucle_cobre_manual lf mh obj s2 []" and c: "fst (bucle_cobre_manual lf mh obj s2 []) = Some Completed"
    using \<open>\<not> pulsos_encoder s2 < obj\<close> by simp_all
  show ?thesis
    using assms(1-3) bucle_cobre_manual_none [OF assms(1)] r c
    by (simp add: bucle_cobre_manual_sigue Let_def s2_def [symmetric])
qed

lemma bucle_cobre_auto_pulsos:
  "0 \<le> pulsos_encoder s \<Longrightarrow>
   pulsos_encoder s + int (sum_list (map flancos ticks)) < 2 ^ 31 \<Longrightarrow>
   pulsos_encoder s \<le> pulsos_encoder (snd (bucle_cobre_auto lf obj s ticks))
   \<and> pulsos_encoder (snd (bucle_cobre_auto lf obj s ticks)) \<le> pulsos_encoder s + int (sum_list (map flancos ticks))
   \<and> (fst (bucle_cobre_auto lf obj s ticks) = None \<longrightarrow>
        pulsos_encoder (snd (bucle_cobre_auto lf obj s ticks)) = pulsos_encoder s + int (sum_list (map flancos ticks)))"
proof (induction ticks arbitrary: s)
  case Nil
  then show ?case by simp
next
  case (Cons t ts)
  define s2 where "s2 = interrupciones (flancos t) (oscila_servo 50 130 15 (progreso_cobre ''Cobre Auto (1H)...'' s))"
  have p: "pulsos_encoder s2 = pulsos_encoder s + int (flancos t)"
    unfolding s2_def using Cons.prems by (subst pulsos_interrupciones) simp_all
  have "pulsos_encoder s2 \<le> pulsos_encoder (snd (bucle_cobre_auto lf obj s2 ts))
      \<and> pulsos_encoder (snd (bucle_cobre_auto lf obj s2 ts)) \<le> pulsos_encoder s2 + int (sum_list (map flancos ts))
      \<and> (fst (bucle_cobre_auto lf obj s2 ts) = None \<longrightarrow>
           pulsos_encoder (snd (bucle_cobre_auto lf obj s2 ts)) = pulsos_encoder s2 + int (sum_list (map flancos ts)))"
    using Cons.prems p by (intro Cons.IH) simp_all
  then show ?case
    using p by (simp add: Let_def s2_def [symmetric])
qed

lemma bucle_cobre_auto_prefijo:
  assumes "0 \<le> pulsos_encoder s"
    and "pulsos_encoder s + int (sum_list (map flancos (pre @ post))) < 2 ^ 31"
  shows "pulsos_encoder (snd (bucle_cobre_auto lf obj s pre)) \<le> pulsos_encoder (snd (bucle_cobre_auto lf obj s (pre @ post)))"
proof (cases "fst (bucle_cobre_auto lf obj s pre)")
  case None
  let ?s = "snd (bucle_cobre_auto lf obj s pre)"
  have a: "pulsos_encoder s \<le> pulsos_encoder ?s
      \<and> pulsos_encoder ?s \<le> pulsos_encoder s + int (sum_list (map flancos pre))"
    using assms bucle_cobre_auto_pulsos [of s pre] by simp
  then have "pulsos_encoder ?s \<le> pulsos_encoder (snd (bucle_cobre_auto lf obj ?s post))"
    using assms bucle_cobre_auto_pulsos [of ?s post] by simp
  then show ?thesis using None by (simp add: bucle_cobre_auto_sigue)
next
  case (Some r)
  then show ?thesis by (simp add: bucle_cobre_auto_fin)
qed

lemma bucle_cobre_auto_llega:
  assumes "fst (bucle_cobre_auto lf obj s pre) = None" and "lf t \<le> 3000" and "rot_sw t"
    and "obj \<le> pulsos_encoder (interrupciones (flancos t) (snd (bucle_cobre_auto lf obj s pre)))"
  shows "fst (bucle_cobre_auto lf obj s (pre @ t # post)) = Some Completed
       \<and> bucle_cobre_auto lf obj s (pre @ t # post) = bucle_cobre_auto lf obj s (pre @ [t])"
proof -
  let ?s = "snd (bucle_cobre_auto lf obj s pre)"
  define s2 where "s2 = interrupciones (flancos t) (oscila_servo 50 130 15 (progreso_cobre ''Cobre Auto (1H)...'' ?s))"
  have "pulsos_encoder s2 = pulsos_encoder (interrupciones (flancos t) ?s)"
    unfolding s2_def by (simp add: pulsos_interrupciones_gen)
  then have "\<not> pulsos_encoder s2 < obj" using assms by simp
  then have "\<And>ticks. bucle_cobre_auto lf obj s2 ticks = bucle_cobre_auto lf obj s2 []"
    by (simp add: bucle_cobre_auto_alcanzado)
  then have r: "bucle_cobre_auto lf obj s2 post = bucle_cobre_auto lf obj s2 []" and c: "fst (bucle_cobre_auto lf obj s2 []) = Some Completed"
    using \<open>\<not> pulsos_encoder s2 < obj\<close> by simp_all
  show ?thesis
    using assms(1-3) bucle_cobre_auto_none [OF assms(1)] r c
    by (simp add: bucle_cobre_auto_sigue Let_def s2_def [symmetric])
qed


section \<open>The tension check: claim C1\<close>

lemmas enrollar_con_defs =
  enrollar_auto_con_def enrollar_hasta_con_def enrollar_cobre_manual_con_def
  enrollar_cobre_auto_con_def

lemmas enrollar_defs =
  enrollar_auto_def enrollar_hasta_def enrollar_cobre_manual_def enrollar_cobre_auto_def

lemma pulsos_interrupciones_0 [simp]:
  "pulsos_encoder s = 0 \<Longrightarrow> int n < 2 ^ 31 \<Longrightarrow> pulsos_encoder (interrupciones n s) = int n"
  by (simp add: pulsos_interrupciones)

lemma corre_auto: "fst (enrollar_auto_con fuerza reposo [gira 5]) = None"
  by (simp add: enrollar_auto_con_def Let_def gira_def)

lemma corre_hasta: "fst (enrollar_hasta_con fuerza 1 reposo [gira 5]) = None"
  by (simp add: enrollar_hasta_con_def Let_def gira_def metros_a_pulsos_1)

lemma corre_cobre_manual: "fst (enrollar_cobre_manual_con fuerza 100 reposo [gira 5]) = None"
  by (simp add: enrollar_cobre_manual_con_def Let_def gira_def calcular_100)

lemma corre_cobre_auto: "fst (enrollar_cobre_auto_con fuerza reposo [gira 5]) = None"
  by (simp add: enrollar_cobre_auto_con_def Let_def gira_def calcular_1000)

text \<open>
  Claim C1. In each of the four winding functions, run against a simulated tension sensor:
  if the run is still in its loop after the samples \<open>pre\<close>, and the reading of the next
  pass \<open>t\<close> is greater than 3000, then the run ends in that pass as \<open>AbortedByTension\<close> (no
  sample after \<open>t\<close> is looked at) and \<^verbatim>\<open>MOTOR_EN\<close> is low when the function returns.
\<close>

theorem aborta_por_tension:
  assumes "3000 < fuerza t"
  shows "(fst (enrollar_auto_con fuerza s pre) = None \<longrightarrow>
            fst (enrollar_auto_con fuerza s (pre @ t # post)) = Some AbortedByTension
          \<and> \<not> motor_en (snd (enrollar_auto_con fuerza s (pre @ t # post)))
          \<and> enrollar_auto_con fuerza s (pre @ t # post) = enrollar_auto_con fuerza s (pre @ [t]))
       \<and> (fst (enrollar_hasta_con fuerza metros s pre) = None \<longrightarrow>
            fst (enrollar_hasta_con fuerza metros s (pre @ t # post)) = Some AbortedByTension
          \<and> \<not> motor_en (snd (enrollar_hasta_con fuerza metros s (pre @ t # post)))
          \<and> enrollar_hasta_con fuerza metros s (pre @ t # post) =
              enrollar_hasta_con fuerza metros s (pre @ [t]))
       \<and> (fst (enrollar_cobre_manual_con fuerza mh s pre) = None \<longrightarrow>
            fst (enrollar_cobre_manual_con fuerza mh s (pre @ t # post)) = Some AbortedByTension
          \<and> \<not> motor_en (snd (enrollar_cobre_manual_con fuerza mh s (pre @ t # post)))
          \<and> enrollar_cobre_manual_con fuerza mh s (pre @ t # post) =
              enrollar_cobre_manual_con fuerza mh s (pre @ [t]))
       \<and> (fst (enrollar_cobre_auto_con fuerza s pre) = None \<longrightarrow>
            fst (enrollar_cobre_auto_con fuerza s (pre @ t # post)) = Some AbortedByTension
          \<and> \<not> motor_en (snd (enrollar_cobre_auto_con fuerza s (pre @ t # post)))
          \<and> enrollar_cobre_auto_con fuerza s (pre @ t # post) =
              enrollar_cobre_auto_con fuerza s (pre @ [t]))"
  unfolding enrollar_con_defs Let_def
  using bucle_auto_tension [where lf = fuerza and t = t, OF _ assms]
    bucle_hasta_tension [where lf = fuerza and t = t, OF _ assms]
    bucle_cobre_manual_tension [where lf = fuerza and t = t, OF _ assms]
    bucle_cobre_auto_tension [where lf = fuerza and t = t, OF _ assms]
  by blast

text \<open>
  Claim C1 on a machine at rest: one pass with 5 pulses, then a pass with reading 3001.
\<close>

theorem aborta_por_tension_witness:
  "3000 < fuerza tirante
   \<and> fst (enrollar_auto_con fuerza reposo [gira 5]) = None
   \<and> fst (enrollar_auto_con fuerza reposo ([gira 5] @ tirante # [gira 1])) = Some AbortedByTension
   \<and> \<not> motor_en (snd (enrollar_auto_con fuerza reposo ([gira 5] @ tirante # [gira 1])))
   \<and> fst (enrollar_hasta_con fuerza 1 reposo [gira 5]) = None
   \<and> fst (enrollar_hasta_con fuerza 1 reposo ([gira 5] @ tirante # [gira 1])) =
       Some AbortedByTension
   \<and> \<not> motor_en (snd (enrollar_hasta_con fuerza 1 reposo ([gira 5] @ tirante # [gira 1])))
   \<and> fst (enrollar_cobre_manual_con fuerza 100 reposo [gira 5]) = None
   \<and> fst (enrollar_cobre_manual_con fuerza 100 reposo ([gira 5] @ tirante # [gira 1])) =
       Some AbortedByTension
   \<and> \<not> motor_en (snd (enrollar_cobre_manual_con fuerza 100 reposo ([gira 5] @ tirante # [gira 1])))
   \<and> fst (enrollar_cobre_auto_con fuerza reposo [gira 5]) = None
   \<and> fst (enrollar_cobre_auto_con fuerza reposo ([gira 5] @ tirante # [gira 1])) =
       Some AbortedByTension
   \<and> \<not> motor_en (snd (enrollar_cobre_auto_con fuerza reposo ([gira 5] @ tirante # [gira 1])))"
proof -
  have h: "3000 < fuerza tirante" by (simp add: tirante_def)
  note t = aborta_por_tension [OF h, of reposo "[gira 5]" "[gira 1]" 1 100]
  show ?thesis
    using h t corre_auto corre_hasta corre_cobre_manual corre_cobre_auto by blast
qed


section \<open>The firmware's own runs: claims C2 and C10\<close>

lemma leer_fuerza_bajo: "leer_fuerza \<le> 3000"
  by (simp add: leer_fuerza_def)

lemma anda_auto: "fst (enrollar_auto reposo [gira 5]) = None"
  "motor_en (snd (enrollar_auto reposo [gira 5]))"
  by (simp_all add: enrollar_auto_def enrollar_auto_con_def Let_def gira_def leer_fuerza_def)

lemma anda_hasta: "fst (enrollar_hasta 1 reposo [gira 5]) = None"
  "motor_en (snd (enrollar_hasta 1 reposo [gira 5]))"
  by (simp_all add: enrollar_hasta_def enrollar_hasta_con_def Let_def gira_def leer_fuerza_def
      metros_a_pulsos_1)

lemma anda_cobre_manual: "fst (enrollar_cobre_manual 100 reposo [gira 5]) = None"
  "motor_en (snd (enrollar_cobre_manual 100 reposo [gira 5]))"
  by (simp_all add: enrollar_cobre_manual_def enrollar_cobre_manual_con_def Let_def gira_def
      leer_fuerza_def calcular_100)

lemma anda_cobre_auto: "fst (enrollar_cobre_auto reposo [gira 5]) = None"
  "motor_en (snd (enrollar_cobre_auto reposo [gira 5]))"
  by (simp_all add: enrollar_cobre_auto_def enrollar_cobre_auto_con_def Let_def gira_def
      leer_fuerza_def calcular_1000)




text \<open>
  Claim C10. \<open>leer_fuerza\<close> is 0, which is not greater than 3000. So no run of the four
  winding functions ends as \<open>AbortedByTension\<close>, whatever the environment delivers, and the
  motor stays enabled as long as a function has not returned: it is only ever disabled on
  reaching the target or on the operator's stop.
\<close>

theorem tension_inalcanzable:
  "leer_fuerza = 0 \<and> \<not> 3000 < leer_fuerza
   \<and> fst (enrollar_auto s ticks) \<noteq> Some AbortedByTension
   \<and> fst (enrollar_hasta metros s ticks) \<noteq> Some AbortedByTension
   \<and> fst (enrollar_cobre_manual mh s ticks) \<noteq> Some AbortedByTension
   \<and> fst (enrollar_cobre_auto s ticks) \<noteq> Some AbortedByTension
   \<and> (fst (enrollar_auto s ticks) = None \<longrightarrow> motor_en (snd (enrollar_auto s ticks)))
   \<and> (fst (enrollar_hasta metros s ticks) = None \<longrightarrow>
        motor_en (snd (enrollar_hasta metros s ticks)))
   \<and> (fst (enrollar_cobre_manual mh s ticks) = None \<longrightarrow>
        motor_en (snd (enrollar_cobre_manual mh s ticks)))
   \<and> (fst (enrollar_cobre_auto s ticks) = None \<longrightarrow>
        motor_en (snd (enrollar_cobre_auto s ticks)))"
proof -
  have a: "leer_fuerza = 0 \<and> \<not> 3000 < leer_fuerza" by (simp add: leer_fuerza_def)
  have t1: "fst (enrollar_auto s ticks) \<noteq> Some AbortedByTension"
    unfolding enrollar_auto_def enrollar_auto_con_def Let_def
    by (rule bucle_auto_sin_tension) (rule leer_fuerza_bajo)
  have t2: "fst (enrollar_hasta metros s ticks) \<noteq> Some AbortedByTension"
    unfolding enrollar_hasta_def enrollar_hasta_con_def Let_def
    by (rule bucle_hasta_sin_tension) (rule leer_fuerza_bajo)
  have t3: "fst (enrollar_cobre_manual mh s ticks) \<noteq> Some AbortedByTension"
    unfolding enrollar_cobre_manual_def enrollar_cobre_manual_con_def Let_def
    by (rule bucle_cobre_manual_sin_tension) (rule leer_fuerza_bajo)
  have t4: "fst (enrollar_cobre_auto s ticks) \<noteq> Some AbortedByTension"
    unfolding enrollar_cobre_auto_def enrollar_cobre_auto_con_def Let_def
    by (rule bucle_cobre_auto_sin_tension) (rule leer_fuerza_bajo)
  have m1: "fst (enrollar_auto s ticks) = None \<longrightarrow> motor_en (snd (enrollar_auto s ticks))"
    unfolding enrollar_auto_def enrollar_auto_con_def Let_def
    by (auto intro!: bucle_auto_motor)
  have m2: "fst (enrollar_hasta metros s ticks) = None \<longrightarrow>
      motor_en (snd (enrollar_hasta metros s ticks))"
    unfolding enrollar_hasta_def enrollar_hasta_con_def Let_def
    by (auto intro!: bucle_hasta_motor)
  have m3: "fst (enrollar_cobre_manual mh s ticks) = None \<longrightarrow>
      motor_en (snd (enrollar_cobre_manual mh s ticks))"
    unfolding enrollar_cobre_manual_def enrollar_cobre_manual_con_def Let_def
    by (auto intro!: bucle_cobre_manual_motor)
  have m4: "fst (enrollar_cobre_auto s ticks) = None \<longrightarrow>
      motor_en (snd (enrollar_cobre_auto s ticks))"
    unfolding enrollar_cobre_auto_def enrollar_cobre_auto_con_def Let_def
    by (auto intro!: bucle_cobre_auto_motor)
  show ?thesis using a t1 t2 t3 t4 m1 m2 m3 m4 by blast
qed

text \<open>
  Claim C10 on a machine at rest: after one pass each function is still running with the
  motor enabled, and a sample carrying the reading 3001 does not abort \<open>enrollar_auto\<close>.
\<close>

theorem tension_inalcanzable_witness:
  "fst (enrollar_auto reposo [gira 5]) = None
   \<and> motor_en (snd (enrollar_auto reposo [gira 5]))
   \<and> fst (enrollar_hasta 1 reposo [gira 5]) = None
   \<and> motor_en (snd (enrollar_hasta 1 reposo [gira 5]))
   \<and> fst (enrollar_cobre_manual 100 reposo [gira 5]) = None
   \<and> motor_en (snd (enrollar_cobre_manual 100 reposo [gira 5]))
   \<and> fst (enrollar_cobre_auto reposo [gira 5]) = None
   \<and> motor_en (snd (enrollar_cobre_auto reposo [gira 5]))
   \<and> fst (enrollar_auto reposo [gira 5, tirante]) \<noteq> Some AbortedByTension"
proof -
  note t = tension_inalcanzable [of reposo "[gira 5]" 1 100]
  note u = tension_inalcanzable [of reposo "[gira 5, tirante]" 1 100]
  show ?thesis
    using t u anda_auto(1) anda_hasta(1) anda_cobre_manual(1) anda_cobre_auto(1) by blast
qed


section \<open>What the display does not decide\<close>

text \<open>
  Two loop states that agree on the pulse count, the motor output and the angles commanded
  so far run alike, whatever they have shown or remember having shown: the progress screens
  decide nothing. The same holds across the two copper loops, which differ in their
  screens only.
\<close>

lemma muestra_gira [simp]:
  "flancos (gira n) = n" "fuerza (gira n) = 0" "rot_sw (gira n)"
  by (simp_all add: gira_def)

lemma bucle_hasta_control:
  "pulsos_encoder s = pulsos_encoder s' \<Longrightarrow> motor_en s = motor_en s' \<Longrightarrow>
   angulos (traza s) = angulos (traza s') \<Longrightarrow>
   fst (bucle_hasta lf obj s ticks) = fst (bucle_hasta lf obj s' ticks)
   \<and> pulsos_encoder (snd (bucle_hasta lf obj s ticks)) = pulsos_encoder (snd (bucle_hasta lf obj s' ticks))
   \<and> motor_en (snd (bucle_hasta lf obj s ticks)) = motor_en (snd (bucle_hasta lf obj s' ticks))
   \<and> angulos (traza (snd (bucle_hasta lf obj s ticks))) = angulos (traza (snd (bucle_hasta lf obj s' ticks)))"
proof (induction ticks arbitrary: s s')
  case Nil
  then show ?case by simp
next
  case (Cons t ts)
  define s2 where "s2 = interrupciones (flancos t) (oscila_servo 50 130 15 (progreso_hasta s))"
  define s2' where "s2' = interrupciones (flancos t) (oscila_servo 50 130 15 (progreso_hasta s'))"
  have r: "pulsos_encoder s2 = pulsos_encoder s2'" "motor_en s2 = motor_en s2'"
    "angulos (traza s2) = angulos (traza s2')"
    using Cons.prems by (simp_all add: s2_def s2'_def pulsos_interrupciones_gen)
  note ih = Cons.IH [OF r]
  show ?case
    using Cons.prems r ih
    by (simp add: Let_def s2_def [symmetric] s2'_def [symmetric])
qed

lemma bucle_cobre_manual_control:
  "pulsos_encoder s = pulsos_encoder s' \<Longrightarrow> motor_en s = motor_en s' \<Longrightarrow>
   angulos (traza s) = angulos (traza s') \<Longrightarrow>
   fst (bucle_cobre_manual lf mh obj s ticks) = fst (bucle_cobre_manual lf mh obj s' ticks)
   \<and> pulsos_encoder (snd (bucle_cobre_manual lf mh obj s ticks)) = pulsos_encoder (snd (bucle_cobre_manual lf mh obj s' ticks))
   \<and> motor_en (snd (bucle_cobre_manual lf mh obj s ticks)) = motor_en (snd (bucle_cobre_manual lf mh obj s' ticks))
   \<and> angulos (traza (snd (bucle_cobre_manual lf mh obj s ticks))) = angulos (traza (snd (bucle_cobre_manual lf mh obj s' ticks)))"
proof (induction ticks arbitrary: s s')
  case Nil
  then show ?case by simp
next
  case (Cons t ts)
  define s2 where "s2 = interrupciones (flancos t) (oscila_servo 50 130 15 (progreso_cobre ''Cobre Manual...'' s))"
  define s2' where "s2' = interrupciones (flancos t) (oscila_servo 50 130 15 (progreso_cobre ''Cobre Manual...'' s'))"
  have r: "pulsos_encoder s2 = pulsos_encoder s2'" "motor_en s2 = motor_en s2'"
    "angulos (traza s2) = angulos (traza s2')"
    using Cons.prems by (simp_all add: s2_def s2'_def pulsos_interrupciones_gen)
  note ih = Cons.IH [OF r]
  show ?case
    using Cons.prems r ih
    by (simp add: Let_def s2_def [symmetric] s2'_def [symmetric])
qed

lemma bucle_cobre_auto_manual:
  "pulsos_encoder s = pulsos_encoder s' \<Longrightarrow> motor_en s = motor_en s' \<Longrightarrow>
   angulos (traza s) = angulos (traza s') \<Longrightarrow>
   fst (bucle_cobre_auto lf obj s ticks) = fst (bucle_cobre_manual lf mh obj s' ticks)
   \<and> pulsos_encoder (snd (bucle_cobre_auto lf obj s ticks)) = pulsos_encoder (snd (bucle_cobre_manual lf mh obj s' ticks))
   \<and> motor_en (snd (bucle_cobre_auto lf obj s ticks)) = motor_en (snd (bucle_cobre_manual lf mh obj s' ticks))
   \<and> angulos (traza (snd (bucle_cobre_auto lf obj s ticks))) = angulos (traza (snd (bucle_cobre_manual lf mh obj s' ticks)))"
proof (induction ticks arbitrary: s s')
  case Nil
  then show ?case by simp
next
  case (Cons t ts)
  define s2 where "s2 = interrupciones (flancos t) (oscila_servo 50 130 15 (progreso_cobre ''Cobre Auto (1H)...'' s))"
  define s2' where "s2' = interrupciones (flancos t) (oscila_servo 50 130 15 (progreso_cobre ''Cobre Manual...'' s'))"
  have r: "pulsos_encoder s2 = pulsos_encoder s2'" "motor_en s2 = motor_en s2'"
    "angulos (traza s2) = angulos (traza s2')"
    using Cons.prems by (simp_all add: s2_def s2'_def pulsos_interrupciones_gen)
  note ih = Cons.IH [OF r]
  show ?case
    using Cons.prems r ih
    by (simp add: Let_def s2_def [symmetric] s2'_def [symmetric])
qed


section \<open>The target of the copper runs: claim C7\<close>

lemma cobre_auto_6014:
  "fst (enrollar_cobre_auto reposo [gira 6014]) = None"
  "pulsos_encoder (snd (enrollar_cobre_auto reposo [gira 6014])) = 6014"
  by (simp_all add: enrollar_cobre_auto_def enrollar_cobre_auto_con_def Let_def gira_def
      leer_fuerza_def calcular_1000)

lemma cobre_auto_6015:
  "fst (enrollar_cobre_auto reposo [gira 6015]) = Some Completed"
  "pulsos_encoder (snd (enrollar_cobre_auto reposo [gira 6015])) = 6015"
  by (simp_all add: enrollar_cobre_auto_def enrollar_cobre_auto_con_def Let_def gira_def
      leer_fuerza_def calcular_1000)

text \<open>
  Claim C7. \<open>enrollar_cobre_auto\<close> winds towards \<open>calcular_vueltas_para_mH 1000\<close>, the function
  \<open>enrollar_cobre_manual\<close> applies to its argument: on every environment it ends as
  \<open>enrollar_cobre_manual 1000\<close> does, with the same pulse count, motor output and angles
  commanded; it is still running only below \<open>calcular_vueltas_para_mH 1000\<close> turns, and is
  completed only at or above them.
\<close>

theorem enrollar_cobre_auto_objetivo:
  "fst (enrollar_cobre_auto s ticks) = fst (enrollar_cobre_manual 1000 s ticks)
   \<and> pulsos_encoder (snd (enrollar_cobre_auto s ticks)) =
       pulsos_encoder (snd (enrollar_cobre_manual 1000 s ticks))
   \<and> motor_en (snd (enrollar_cobre_auto s ticks)) =
       motor_en (snd (enrollar_cobre_manual 1000 s ticks))
   \<and> angulos (traza (snd (enrollar_cobre_auto s ticks))) =
       angulos (traza (snd (enrollar_cobre_manual 1000 s ticks)))
   \<and> (fst (enrollar_cobre_auto s ticks) = None \<longrightarrow>
        pulsos_encoder (snd (enrollar_cobre_auto s ticks)) < calcular_vueltas_para_mH 1000)
   \<and> (fst (enrollar_cobre_auto s ticks) = Some Completed \<longrightarrow>
        calcular_vueltas_para_mH 1000 \<le> pulsos_encoder (snd (enrollar_cobre_auto s ticks)))"
proof -
  have eq: "fst (enrollar_cobre_auto s ticks) = fst (enrollar_cobre_manual 1000 s ticks)
     \<and> pulsos_encoder (snd (enrollar_cobre_auto s ticks)) =
         pulsos_encoder (snd (enrollar_cobre_manual 1000 s ticks))
     \<and> motor_en (snd (enrollar_cobre_auto s ticks)) =
         motor_en (snd (enrollar_cobre_manual 1000 s ticks))
     \<and> angulos (traza (snd (enrollar_cobre_auto s ticks))) =
         angulos (traza (snd (enrollar_cobre_manual 1000 s ticks)))"
    unfolding enrollar_cobre_auto_def enrollar_cobre_auto_con_def
      enrollar_cobre_manual_def enrollar_cobre_manual_con_def Let_def
    by (rule bucle_cobre_auto_manual) simp_all
  have n: "fst (enrollar_cobre_auto s ticks) = None \<longrightarrow>
      pulsos_encoder (snd (enrollar_cobre_auto s ticks)) < calcular_vueltas_para_mH 1000"
    unfolding enrollar_cobre_auto_def enrollar_cobre_auto_con_def Let_def
    by (auto dest: bucle_cobre_auto_none)
  have c: "fst (enrollar_cobre_auto s ticks) = Some Completed \<longrightarrow>
      calcular_vueltas_para_mH 1000 \<le> pulsos_encoder (snd (enrollar_cobre_auto s ticks))"
    unfolding enrollar_cobre_auto_def enrollar_cobre_auto_con_def Let_def
    by (auto dest: bucle_cobre_auto_completo)
  show ?thesis using eq n c by blast
qed

text \<open>
  Claim C7 at the target, which is 6015 turns: both functions are still running after 6014
  pulses and completed after 6015.
\<close>

theorem enrollar_cobre_auto_objetivo_witness:
  "calcular_vueltas_para_mH 1000 = 6015
   \<and> fst (enrollar_cobre_auto reposo [gira 6014]) = None
   \<and> pulsos_encoder (snd (enrollar_cobre_auto reposo [gira 6014])) < calcular_vueltas_para_mH 1000
   \<and> fst (enrollar_cobre_manual 1000 reposo [gira 6014]) = None
   \<and> fst (enrollar_cobre_auto reposo [gira 6015]) = Some Completed
   \<and> calcular_vueltas_para_mH 1000 \<le> pulsos_encoder (snd (enrollar_cobre_auto reposo [gira 6015]))
   \<and> fst (enrollar_cobre_manual 1000 reposo [gira 6015]) = Some Completed"
proof -
  note a = enrollar_cobre_auto_objetivo [of reposo "[gira 6014]"]
  note b = enrollar_cobre_auto_objetivo [of reposo "[gira 6015]"]
  show ?thesis
    using a b cobre_auto_6014(1) cobre_auto_6015(1) calcular_1000 by metis
qed


section \<open>Reaching the target: claim C4\<close>

lemma hasta_solo_completa:
  "fst (enrollar_hasta metros s ticks) = None \<or> fst (enrollar_hasta metros s ticks) = Some Completed"
proof (cases "fst (enrollar_hasta metros s ticks)")
  case None
  then show ?thesis by simp
next
  case (Some r)
  have "r \<noteq> AbortedByTension"
    using Some bucle_hasta_sin_tension [where lf = "\<lambda>t. leer_fuerza", OF leer_fuerza_bajo]
    unfolding enrollar_hasta_def enrollar_hasta_con_def Let_def by auto
  moreover have "r \<noteq> AbortedByOperator"
    using Some bucle_hasta_nunca_operador [where lf = "\<lambda>t. leer_fuerza"]
    unfolding enrollar_hasta_def enrollar_hasta_con_def Let_def by auto
  ultimately show ?thesis using Some by (cases r) simp_all
qed

lemma hasta_sigue:
  "fst (enrollar_hasta metros s ticks) = None \<longrightarrow>
   pulsos_encoder (snd (enrollar_hasta metros s ticks)) < metros_a_pulsos metros"
  unfolding enrollar_hasta_def enrollar_hasta_con_def Let_def
  by (auto dest: bucle_hasta_none)

lemma hasta_completa_sii:
  "(fst (enrollar_hasta metros s ticks) = Some Completed) =
   (metros_a_pulsos metros \<le> pulsos_encoder (snd (enrollar_hasta metros s ticks)))"
proof
  assume "fst (enrollar_hasta metros s ticks) = Some Completed"
  then show "metros_a_pulsos metros \<le> pulsos_encoder (snd (enrollar_hasta metros s ticks))"
    unfolding enrollar_hasta_def enrollar_hasta_con_def Let_def
    by (auto dest: bucle_hasta_completo)
next
  assume a: "metros_a_pulsos metros \<le> pulsos_encoder (snd (enrollar_hasta metros s ticks))"
  have "fst (enrollar_hasta metros s ticks) \<noteq> None"
    using a hasta_sigue [of metros s ticks] by auto
  then show "fst (enrollar_hasta metros s ticks) = Some Completed"
    using hasta_solo_completa [of metros s ticks] by auto
qed

lemma hasta_completa_motor:
  "fst (enrollar_hasta metros s ticks) = Some Completed \<longrightarrow>
   \<not> motor_en (snd (enrollar_hasta metros s ticks))"
  unfolding enrollar_hasta_def enrollar_hasta_con_def Let_def
  by (auto dest: bucle_hasta_completo)

lemma hasta_llega:
  "fst (enrollar_hasta metros s pre) = None \<longrightarrow>
   metros_a_pulsos metros \<le>
     pulsos_encoder (interrupciones (flancos t) (snd (enrollar_hasta metros s pre))) \<longrightarrow>
   fst (enrollar_hasta metros s (pre @ t # post)) = Some Completed
   \<and> enrollar_hasta metros s (pre @ t # post) = enrollar_hasta metros s (pre @ [t])"
  unfolding enrollar_hasta_def enrollar_hasta_con_def Let_def
  by (intro impI bucle_hasta_llega leer_fuerza_bajo)

lemma cobre_manual_completa:
  "fst (enrollar_cobre_manual mh s ticks) = Some Completed \<longrightarrow>
   calcular_vueltas_para_mH mh \<le> pulsos_encoder (snd (enrollar_cobre_manual mh s ticks))
   \<and> \<not> motor_en (snd (enrollar_cobre_manual mh s ticks))"
  unfolding enrollar_cobre_manual_def enrollar_cobre_manual_con_def Let_def
  by (auto dest: bucle_cobre_manual_completo)

lemma cobre_manual_sigue:
  "fst (enrollar_cobre_manual mh s ticks) = None \<longrightarrow>
   pulsos_encoder (snd (enrollar_cobre_manual mh s ticks)) < calcular_vueltas_para_mH mh"
  unfolding enrollar_cobre_manual_def enrollar_cobre_manual_con_def Let_def
  by (auto dest: bucle_cobre_manual_none)

lemma cobre_manual_llega:
  "fst (enrollar_cobre_manual mh s pre) = None \<longrightarrow> rot_sw t \<longrightarrow>
   calcular_vueltas_para_mH mh \<le>
     pulsos_encoder (interrupciones (flancos t) (snd (enrollar_cobre_manual mh s pre))) \<longrightarrow>
   fst (enrollar_cobre_manual mh s (pre @ t # post)) = Some Completed
   \<and> enrollar_cobre_manual mh s (pre @ t # post) = enrollar_cobre_manual mh s (pre @ [t])"
  unfolding enrollar_cobre_manual_def enrollar_cobre_manual_con_def Let_def
  by (intro impI bucle_cobre_manual_llega leer_fuerza_bajo)

lemma hasta_sin_cadencia:
  "fst (bucle_hasta lf obj (s\<lparr>ultimo_mostrado := u\<rparr>) ticks) = fst (bucle_hasta lf obj s ticks)
   \<and> pulsos_encoder (snd (bucle_hasta lf obj (s\<lparr>ultimo_mostrado := u\<rparr>) ticks)) =
       pulsos_encoder (snd (bucle_hasta lf obj s ticks))
   \<and> motor_en (snd (bucle_hasta lf obj (s\<lparr>ultimo_mostrado := u\<rparr>) ticks)) =
       motor_en (snd (bucle_hasta lf obj s ticks))"
  using bucle_hasta_control [of "s\<lparr>ultimo_mostrado := u\<rparr>" s lf obj ticks] by simp

lemma cobre_manual_sin_cadencia:
  "fst (bucle_cobre_manual lf mh obj (s\<lparr>ultimo_mostrado := u\<rparr>) ticks) =
       fst (bucle_cobre_manual lf mh obj s ticks)
   \<and> pulsos_encoder (snd (bucle_cobre_manual lf mh obj (s\<lparr>ultimo_mostrado := u\<rparr>) ticks)) =
       pulsos_encoder (snd (bucle_cobre_manual lf mh obj s ticks))
   \<and> motor_en (snd (bucle_cobre_manual lf mh obj (s\<lparr>ultimo_mostrado := u\<rparr>) ticks)) =
       motor_en (snd (bucle_cobre_manual lf mh obj s ticks))"
  using bucle_cobre_manual_control [of "s\<lparr>ultimo_mostrado := u\<rparr>" s lf mh obj ticks] by simp

lemma hasta_2000:
  "fst (enrollar_hasta 1 reposo [gira 2000]) = None"
  "pulsos_encoder (snd (enrollar_hasta 1 reposo [gira 2000])) = 2000"
  by (simp_all add: enrollar_hasta_def enrollar_hasta_con_def Let_def gira_def
      leer_fuerza_def metros_a_pulsos_1)

lemma hasta_2273:
  "fst (enrollar_hasta 1 reposo [gira 2000, gira 273]) = Some Completed"
  "pulsos_encoder (snd (enrollar_hasta 1 reposo [gira 2000, gira 273])) = 2273"
  "\<not> motor_en (snd (enrollar_hasta 1 reposo [gira 2000, gira 273]))"
  by (simp_all add: enrollar_hasta_def enrollar_hasta_con_def Let_def gira_def
      leer_fuerza_def metros_a_pulsos_1 pulsos_interrupciones)

lemma hasta_2272:
  "fst (enrollar_hasta 1 reposo [gira 2000, gira 272]) = None"
  "pulsos_encoder (snd (enrollar_hasta 1 reposo [gira 2000, gira 272])) = 2272"
  by (simp_all add: enrollar_hasta_def enrollar_hasta_con_def Let_def gira_def
      leer_fuerza_def metros_a_pulsos_1 pulsos_interrupciones)

lemma cobre_manual_1900:
  "fst (enrollar_cobre_manual 100 reposo [gira 1900]) = None"
  "pulsos_encoder (snd (enrollar_cobre_manual 100 reposo [gira 1900])) = 1900"
  by (simp_all add: enrollar_cobre_manual_def enrollar_cobre_manual_con_def Let_def gira_def
      leer_fuerza_def calcular_100)

lemma cobre_manual_1902:
  "fst (enrollar_cobre_manual 100 reposo [gira 1900, gira 2]) = Some Completed"
  "pulsos_encoder (snd (enrollar_cobre_manual 100 reposo [gira 1900, gira 2])) = 1902"
  by (simp_all add: enrollar_cobre_manual_def enrollar_cobre_manual_con_def Let_def gira_def
      leer_fuerza_def calcular_100 pulsos_interrupciones)


lemma hasta_llegada_2273:
  "metros_a_pulsos 1 \<le>
     pulsos_encoder (interrupciones (flancos (gira 273)) (snd (enrollar_hasta 1 reposo [gira 2000])))"
  by (simp add: pulsos_interrupciones hasta_2000 metros_a_pulsos_1)

lemma cobre_manual_llegada_1902:
  "calcular_vueltas_para_mH 100 \<le>
     pulsos_encoder
       (interrupciones (flancos (gira 2)) (snd (enrollar_cobre_manual 100 reposo [gira 1900])))"
  by (simp add: pulsos_interrupciones cobre_manual_1900 calcular_100)

text \<open>
  Claim C4. For the two manual runs, \<open>enrollar_hasta\<close> with its pulse target and
  \<open>enrollar_cobre_manual\<close> with its turns target:
  \<^item> at any moment \<open>enrollar_hasta\<close> is completed exactly when the count it has observed is
    at or above the target, and then \<^verbatim>\<open>MOTOR_EN\<close> is low;
  \<^item> \<open>enrollar_cobre_manual\<close> is completed only with the count at or above the target and
    \<^verbatim>\<open>MOTOR_EN\<close> low, and is still running only with the count below the target;
  \<^item> a run still in its loop after the samples \<open>pre\<close> completes in the very pass \<open>t\<close> whose
    edges take the count to the target (for copper: unless the switch stops that pass);
  \<^item> the loops run alike from any value of the variable that remembers the count last
    shown: when the display is refreshed has no influence on the outcome, the count or the
    motor.
\<close>

theorem completa_al_alcanzar_el_objetivo:
  "((fst (enrollar_hasta metros s ticks) = Some Completed) =
      (metros_a_pulsos metros \<le> pulsos_encoder (snd (enrollar_hasta metros s ticks))))
   \<and> (fst (enrollar_hasta metros s ticks) = Some Completed \<longrightarrow>
        \<not> motor_en (snd (enrollar_hasta metros s ticks)))
   \<and> (fst (enrollar_hasta metros s pre) = None \<longrightarrow>
        metros_a_pulsos metros \<le>
          pulsos_encoder (interrupciones (flancos t) (snd (enrollar_hasta metros s pre))) \<longrightarrow>
        fst (enrollar_hasta metros s (pre @ t # post)) = Some Completed
        \<and> enrollar_hasta metros s (pre @ t # post) = enrollar_hasta metros s (pre @ [t]))
   \<and> (fst (enrollar_cobre_manual mh s ticks) = Some Completed \<longrightarrow>
        calcular_vueltas_para_mH mh \<le> pulsos_encoder (snd (enrollar_cobre_manual mh s ticks))
        \<and> \<not> motor_en (snd (enrollar_cobre_manual mh s ticks)))
   \<and> (fst (enrollar_cobre_manual mh s ticks) = None \<longrightarrow>
        pulsos_encoder (snd (enrollar_cobre_manual mh s ticks)) < calcular_vueltas_para_mH mh)
   \<and> (fst (enrollar_cobre_manual mh s pre) = None \<longrightarrow> rot_sw t \<longrightarrow>
        calcular_vueltas_para_mH mh \<le>
          pulsos_encoder (interrupciones (flancos t) (snd (enrollar_cobre_manual mh s pre))) \<longrightarrow>
        fst (enrollar_cobre_manual mh s (pre @ t # post)) = Some Completed
        \<and> enrollar_cobre_manual mh s (pre @ t # post) = enrollar_cobre_manual mh s (pre @ [t]))
   \<and> (fst (bucle_hasta lf obj (s\<lparr>ultimo_mostrado := u\<rparr>) ticks) = fst (bucle_hasta lf obj s ticks)
      \<and> pulsos_encoder (snd (bucle_hasta lf obj (s\<lparr>ultimo_mostrado := u\<rparr>) ticks)) =
          pulsos_encoder (snd (bucle_hasta lf obj s ticks))
      \<and> motor_en (snd (bucle_hasta lf obj (s\<lparr>ultimo_mostrado := u\<rparr>) ticks)) =
          motor_en (snd (bucle_hasta lf obj s ticks)))
   \<and> (fst (bucle_cobre_manual lf mh obj (s\<lparr>ultimo_mostrado := u\<rparr>) ticks) =
          fst (bucle_cobre_manual lf mh obj s ticks)
      \<and> pulsos_encoder (snd (bucle_cobre_manual lf mh obj (s\<lparr>ultimo_mostrado := u\<rparr>) ticks)) =
          pulsos_encoder (snd (bucle_cobre_manual lf mh obj s ticks))
      \<and> motor_en (snd (bucle_cobre_manual lf mh obj (s\<lparr>ultimo_mostrado := u\<rparr>) ticks)) =
          motor_en (snd (bucle_cobre_manual lf mh obj s ticks)))"
  by (intro conjI hasta_completa_sii hasta_completa_motor hasta_llega cobre_manual_completa
      cobre_manual_sigue cobre_manual_llega
      hasta_sin_cadencia [THEN conjunct1] hasta_sin_cadencia [THEN conjunct2, THEN conjunct1]
      hasta_sin_cadencia [THEN conjunct2, THEN conjunct2]
      cobre_manual_sin_cadencia [THEN conjunct1]
      cobre_manual_sin_cadencia [THEN conjunct2, THEN conjunct1]
      cobre_manual_sin_cadencia [THEN conjunct2, THEN conjunct2])

text \<open>
  Claim C4 at one metre (2273 pulses) and at 100 mH (1902 turns): after 2000 pulses the
  thread run is still going, the pass that brings 273 more completes it; after 1900 turns
  the copper run is still going, the pass that brings 2 more completes it.
\<close>

theorem completa_al_alcanzar_el_objetivo_witness:
  "fst (enrollar_hasta 1 reposo [gira 2000]) = None
   \<and> metros_a_pulsos 1 \<le>
       pulsos_encoder
         (interrupciones (flancos (gira 273)) (snd (enrollar_hasta 1 reposo [gira 2000])))
   \<and> fst (enrollar_hasta 1 reposo ([gira 2000] @ gira 273 # [gira 9])) = Some Completed
   \<and> \<not> motor_en (snd (enrollar_hasta 1 reposo ([gira 2000] @ gira 273 # [gira 9])))
   \<and> metros_a_pulsos 1 \<le>
       pulsos_encoder (snd (enrollar_hasta 1 reposo ([gira 2000] @ gira 273 # [gira 9])))
   \<and> fst (enrollar_cobre_manual 100 reposo [gira 1900]) = None
   \<and> pulsos_encoder (snd (enrollar_cobre_manual 100 reposo [gira 1900])) <
       calcular_vueltas_para_mH 100
   \<and> rot_sw (gira 2)
   \<and> calcular_vueltas_para_mH 100 \<le>
       pulsos_encoder
         (interrupciones (flancos (gira 2)) (snd (enrollar_cobre_manual 100 reposo [gira 1900])))
   \<and> fst (enrollar_cobre_manual 100 reposo ([gira 1900] @ gira 2 # [gira 9])) = Some Completed
   \<and> \<not> motor_en (snd (enrollar_cobre_manual 100 reposo ([gira 1900] @ gira 2 # [gira 9])))
   \<and> calcular_vueltas_para_mH 100 \<le>
       pulsos_encoder (snd (enrollar_cobre_manual 100 reposo ([gira 1900] @ gira 2 # [gira 9])))"
proof -
  have sw: "rot_sw (gira 2)" by simp
  note a = completa_al_alcanzar_el_objetivo
    [of 1 reposo "[gira 2000]" "[gira 2000]" "gira 273" "[gira 9]" 100]
  note b = completa_al_alcanzar_el_objetivo
    [of 1 reposo "[gira 2000] @ gira 273 # [gira 9]" "[gira 2000]" "gira 273" "[gira 9]" 100]
  note c = completa_al_alcanzar_el_objetivo
    [of 1 reposo "[gira 1900]" "[gira 1900]" "gira 2" "[gira 9]" 100]
  note d = completa_al_alcanzar_el_objetivo
    [of 1 reposo "[gira 1900] @ gira 2 # [gira 9]" "[gira 1900]" "gira 2" "[gira 9]" 100]
  note h2 = a [THEN conjunct2, THEN conjunct2, THEN conjunct1, rule_format,
      OF hasta_2000(1) hasta_llegada_2273, THEN conjunct1]
  note h3 = b [THEN conjunct2, THEN conjunct1, rule_format, OF h2]
  note h4 = b [THEN conjunct1, THEN iffD1, OF h2]
  note k1 = c [THEN conjunct2, THEN conjunct2, THEN conjunct2, THEN conjunct2, THEN conjunct1,
      rule_format, OF cobre_manual_1900(1)]
  note k2 = c [THEN conjunct2, THEN conjunct2, THEN conjunct2, THEN conjunct2, THEN conjunct2,
      THEN conjunct1, rule_format, OF cobre_manual_1900(1) sw cobre_manual_llegada_1902,
      THEN conjunct1]
  note k34 = d [THEN conjunct2, THEN conjunct2, THEN conjunct2, THEN conjunct1, rule_format,
      OF k2]
  show ?thesis
    by (intro conjI hasta_2000(1) hasta_llegada_2273 h2 h3 h4 cobre_manual_1900(1) k1 sw
        cobre_manual_llegada_1902 k2 k34 [THEN conjunct2] k34 [THEN conjunct1])
qed


section \<open>The pulse counter: claim C9\<close>

lemma gpio_callback_incrementa:
  assumes "events AND GPIO_IRQ_EDGE_FALL \<noteq> 0"
    and "- (2 ^ 31) \<le> pulsos_encoder s" and "pulsos_encoder s < 2 ^ 31 - 1"
  shows "gpio_callback OPT_ENCODER_DT events s = s\<lparr>pulsos_encoder := pulsos_encoder s + 1\<rparr>"
  using assms by (simp add: gpio_callback_def int32_id)

lemma gpio_callback_ajeno:
  "gpio \<noteq> OPT_ENCODER_DT \<or> events AND GPIO_IRQ_EDGE_FALL = 0 \<Longrightarrow>
   gpio_callback gpio events s = s"
  by (auto simp: gpio_callback_def)

lemma reinicio:
  "enrollar_auto (s\<lparr>pulsos_encoder := c\<rparr>) ticks = enrollar_auto s ticks"
  "enrollar_hasta metros (s\<lparr>pulsos_encoder := c\<rparr>) ticks = enrollar_hasta metros s ticks"
  "enrollar_cobre_manual mh (s\<lparr>pulsos_encoder := c\<rparr>) ticks = enrollar_cobre_manual mh s ticks"
  "enrollar_cobre_auto (s\<lparr>pulsos_encoder := c\<rparr>) ticks = enrollar_cobre_auto s ticks"
  by (simp_all add: enrollar_defs enrollar_con_defs)

lemma cuenta_inicial:
  "pulsos_encoder (snd (enrollar_auto s [])) = 0"
  "pulsos_encoder (snd (enrollar_hasta metros s [])) = 0"
  "pulsos_encoder (snd (enrollar_cobre_manual mh s [])) = 0"
  "pulsos_encoder (snd (enrollar_cobre_auto s [])) = 0"
  by (simp_all add: enrollar_defs enrollar_con_defs Let_def)

lemma cuenta_monotona:
  assumes "int (sum_list (map flancos (pre @ post))) < 2 ^ 31"
  shows "pulsos_encoder (snd (enrollar_auto s pre)) \<le>
           pulsos_encoder (snd (enrollar_auto s (pre @ post)))"
    and "pulsos_encoder (snd (enrollar_hasta metros s pre)) \<le>
           pulsos_encoder (snd (enrollar_hasta metros s (pre @ post)))"
    and "pulsos_encoder (snd (enrollar_cobre_manual mh s pre)) \<le>
           pulsos_encoder (snd (enrollar_cobre_manual mh s (pre @ post)))"
    and "pulsos_encoder (snd (enrollar_cobre_auto s pre)) \<le>
           pulsos_encoder (snd (enrollar_cobre_auto s (pre @ post)))"
  unfolding enrollar_defs enrollar_con_defs Let_def
  using assms
  by (intro bucle_auto_prefijo bucle_hasta_prefijo bucle_cobre_manual_prefijo
      bucle_cobre_auto_prefijo; simp)+

lemma cuenta_exacta:
  assumes "int (sum_list (map flancos ticks)) < 2 ^ 31"
  shows "fst (enrollar_auto s ticks) = None \<longrightarrow>
           pulsos_encoder (snd (enrollar_auto s ticks)) = int (sum_list (map flancos ticks))"
    and "fst (enrollar_hasta metros s ticks) = None \<longrightarrow>
           pulsos_encoder (snd (enrollar_hasta metros s ticks)) =
             int (sum_list (map flancos ticks))"
    and "fst (enrollar_cobre_manual mh s ticks) = None \<longrightarrow>
           pulsos_encoder (snd (enrollar_cobre_manual mh s ticks)) =
             int (sum_list (map flancos ticks))"
    and "fst (enrollar_cobre_auto s ticks) = None \<longrightarrow>
           pulsos_encoder (snd (enrollar_cobre_auto s ticks)) = int (sum_list (map flancos ticks))"
proof -
  note p = bucle_auto_pulsos [THEN conjunct2, THEN conjunct2]
    bucle_hasta_pulsos [THEN conjunct2, THEN conjunct2]
    bucle_cobre_manual_pulsos [THEN conjunct2, THEN conjunct2]
    bucle_cobre_auto_pulsos [THEN conjunct2, THEN conjunct2]
  show "fst (enrollar_auto s ticks) = None \<longrightarrow>
           pulsos_encoder (snd (enrollar_auto s ticks)) = int (sum_list (map flancos ticks))"
    unfolding enrollar_defs enrollar_con_defs Let_def
    using assms p(1) [of "gpio_put_MOTOR_EN True
        (ssd1306 ''Auto Enrollando...'' [] (s\<lparr>pulsos_encoder := 0\<rparr>))\<lparr>ultimo_mostrado := 0\<rparr>"
        ticks "\<lambda>t. leer_fuerza"]
    by simp
  show "fst (enrollar_hasta metros s ticks) = None \<longrightarrow>
           pulsos_encoder (snd (enrollar_hasta metros s ticks)) =
             int (sum_list (map flancos ticks))"
    unfolding enrollar_defs enrollar_con_defs Let_def
    using assms p(2) [of "gpio_put_MOTOR_EN True
        (ssd1306 ''Enrollando...'' [] (s\<lparr>pulsos_encoder := 0, ultimo_mostrado := 0\<rparr>))"
        ticks "\<lambda>t. leer_fuerza" "metros_a_pulsos metros"]
    by simp
  show "fst (enrollar_cobre_manual mh s ticks) = None \<longrightarrow>
           pulsos_encoder (snd (enrollar_cobre_manual mh s ticks)) =
             int (sum_list (map flancos ticks))"
    unfolding enrollar_defs enrollar_con_defs Let_def
    using assms p(3) [of "gpio_put_MOTOR_EN True
        (ssd1306 ''Cobre Manual...''
          [real_of_int mh, real_of_int (calcular_vueltas_para_mH mh)]
          (s\<lparr>pulsos_encoder := 0, ultimo_mostrado := 0\<rparr>))"
        ticks "\<lambda>t. leer_fuerza" mh "calcular_vueltas_para_mH mh"]
    by simp
  show "fst (enrollar_cobre_auto s ticks) = None \<longrightarrow>
           pulsos_encoder (snd (enrollar_cobre_auto s ticks)) = int (sum_list (map flancos ticks))"
    unfolding enrollar_defs enrollar_con_defs Let_def
    using assms p(4) [of "gpio_put_MOTOR_EN True
        (ssd1306 ''Cobre Auto (1H)...'' [real_of_int (calcular_vueltas_para_mH 1000)]
          (s\<lparr>pulsos_encoder := 0, ultimo_mostrado := 0\<rparr>))"
        ticks "\<lambda>t. leer_fuerza" "calcular_vueltas_para_mH 1000"]
    by simp
qed


lemma anda_8:
  "fst (enrollar_auto reposo [gira 5, gira 3]) = None"
  "fst (enrollar_hasta 1 reposo [gira 5, gira 3]) = None"
  "fst (enrollar_cobre_manual 100 reposo [gira 5, gira 3]) = None"
  "fst (enrollar_cobre_auto reposo [gira 5, gira 3]) = None"
  by (simp_all add: enrollar_defs enrollar_con_defs Let_def leer_fuerza_def metros_a_pulsos_1
      calcular_100 calcular_1000 pulsos_interrupciones)

text \<open>
  Claim C9. Every winding function starts by setting the pulse count to zero: the count
  left by an earlier run has no influence, and the count at the first test of the loop is
  0. The edge handler, called for a falling edge on the encoder pin, adds exactly one to the
  count and changes nothing else (as long as the C \<^verbatim>\<open>int\<close> does not overflow); called for
  another pin or another event it changes nothing. Within a run the count never goes down:
  the count seen after more samples is at least the count seen after fewer, and a run that
  is still in its loop has counted exactly the edges delivered (as long as these are fewer
  than \<open>2\<^sup>3\<^sup>1\<close>).
\<close>

theorem contador_de_pulsos:
  "enrollar_auto (s\<lparr>pulsos_encoder := c\<rparr>) ticks = enrollar_auto s ticks
   \<and> enrollar_hasta metros (s\<lparr>pulsos_encoder := c\<rparr>) ticks = enrollar_hasta metros s ticks
   \<and> enrollar_cobre_manual mh (s\<lparr>pulsos_encoder := c\<rparr>) ticks = enrollar_cobre_manual mh s ticks
   \<and> enrollar_cobre_auto (s\<lparr>pulsos_encoder := c\<rparr>) ticks = enrollar_cobre_auto s ticks
   \<and> pulsos_encoder (snd (enrollar_auto s [])) = 0
   \<and> pulsos_encoder (snd (enrollar_hasta metros s [])) = 0
   \<and> pulsos_encoder (snd (enrollar_cobre_manual mh s [])) = 0
   \<and> pulsos_encoder (snd (enrollar_cobre_auto s [])) = 0
   \<and> (events AND GPIO_IRQ_EDGE_FALL \<noteq> 0 \<longrightarrow>
        - (2 ^ 31) \<le> pulsos_encoder s \<longrightarrow> pulsos_encoder s < 2 ^ 31 - 1 \<longrightarrow>
        gpio_callback OPT_ENCODER_DT events s = s\<lparr>pulsos_encoder := pulsos_encoder s + 1\<rparr>)
   \<and> (gpio \<noteq> OPT_ENCODER_DT \<or> events AND GPIO_IRQ_EDGE_FALL = 0 \<longrightarrow>
        gpio_callback gpio events s = s)
   \<and> (int (sum_list (map flancos (pre @ post))) < 2 ^ 31 \<longrightarrow>
        pulsos_encoder (snd (enrollar_auto s pre)) \<le>
          pulsos_encoder (snd (enrollar_auto s (pre @ post)))
        \<and> pulsos_encoder (snd (enrollar_hasta metros s pre)) \<le>
          pulsos_encoder (snd (enrollar_hasta metros s (pre @ post)))
        \<and> pulsos_encoder (snd (enrollar_cobre_manual mh s pre)) \<le>
          pulsos_encoder (snd (enrollar_cobre_manual mh s (pre @ post)))
        \<and> pulsos_encoder (snd (enrollar_cobre_auto s pre)) \<le>
          pulsos_encoder (snd (enrollar_cobre_auto s (pre @ post))))
   \<and> (int (sum_list (map flancos ticks)) < 2 ^ 31 \<longrightarrow>
        (fst (enrollar_auto s ticks) = None \<longrightarrow>
           pulsos_encoder (snd (enrollar_auto s ticks)) = int (sum_list (map flancos ticks)))
        \<and> (fst (enrollar_hasta metros s ticks) = None \<longrightarrow>
           pulsos_encoder (snd (enrollar_hasta metros s ticks)) =
             int (sum_list (map flancos ticks)))
        \<and> (fst (enrollar_cobre_manual mh s ticks) = None \<longrightarrow>
           pulsos_encoder (snd (enrollar_cobre_manual mh s ticks)) =
             int (sum_list (map flancos ticks)))
        \<and> (fst (enrollar_cobre_auto s ticks) = None \<longrightarrow>
           pulsos_encoder (snd (enrollar_cobre_auto s ticks)) =
             int (sum_list (map flancos ticks))))"
proof -
  have isr: "events AND GPIO_IRQ_EDGE_FALL \<noteq> 0 \<longrightarrow>
        - (2 ^ 31) \<le> pulsos_encoder s \<longrightarrow> pulsos_encoder s < 2 ^ 31 - 1 \<longrightarrow>
        gpio_callback OPT_ENCODER_DT events s = s\<lparr>pulsos_encoder := pulsos_encoder s + 1\<rparr>"
    by (intro impI gpio_callback_incrementa)
  have otro: "gpio \<noteq> OPT_ENCODER_DT \<or> events AND GPIO_IRQ_EDGE_FALL = 0 \<longrightarrow>
        gpio_callback gpio events s = s"
    by (intro impI gpio_callback_ajeno)
  have mono: "int (sum_list (map flancos (pre @ post))) < 2 ^ 31 \<longrightarrow>
        pulsos_encoder (snd (enrollar_auto s pre)) \<le>
          pulsos_encoder (snd (enrollar_auto s (pre @ post)))
        \<and> pulsos_encoder (snd (enrollar_hasta metros s pre)) \<le>
          pulsos_encoder (snd (enrollar_hasta metros s (pre @ post)))
        \<and> pulsos_encoder (snd (enrollar_cobre_manual mh s pre)) \<le>
          pulsos_encoder (snd (enrollar_cobre_manual mh s (pre @ post)))
        \<and> pulsos_encoder (snd (enrollar_cobre_auto s pre)) \<le>
          pulsos_encoder (snd (enrollar_cobre_auto s (pre @ post)))"
    by (intro impI conjI cuenta_monotona)
  have exacta: "int (sum_list (map flancos ticks)) < 2 ^ 31 \<longrightarrow>
        (fst (enrollar_auto s ticks) = None \<longrightarrow>
           pulsos_encoder (snd (enrollar_auto s ticks)) = int (sum_list (map flancos ticks)))
        \<and> (fst (enrollar_hasta metros s ticks) = None \<longrightarrow>
           pulsos_encoder (snd (enrollar_hasta metros s ticks)) =
             int (sum_list (map flancos ticks)))
        \<and> (fst (enrollar_cobre_manual mh s ticks) = None \<longrightarrow>
           pulsos_encoder (snd (enrollar_cobre_manual mh s ticks)) =
             int (sum_list (map flancos ticks)))
        \<and> (fst (enrollar_cobre_auto s ticks) = None \<longrightarrow>
           pulsos_encoder (snd (enrollar_cobre_auto s ticks)) =
             int (sum_list (map flancos ticks)))"
    by (intro impI conjI; rule cuenta_exacta [rule_format]; assumption)
  show ?thesis
    by (intro conjI reinicio cuenta_inicial isr otro mono exacta)
qed

text \<open>
  Claim C9 on a machine at rest with a stale count of 7: the handler takes the count to 8;
  a call for pin 11 changes nothing; runs that receive 5 and then 3 edges have counted 8.
\<close>

theorem contador_de_pulsos_witness:
  "GPIO_IRQ_EDGE_FALL AND GPIO_IRQ_EDGE_FALL \<noteq> 0
   \<and> - (2 ^ 31) \<le> pulsos_encoder reposo \<and> pulsos_encoder reposo < 2 ^ 31 - 1
   \<and> gpio_callback OPT_ENCODER_DT GPIO_IRQ_EDGE_FALL reposo = reposo\<lparr>pulsos_encoder := 8\<rparr>
   \<and> (11 :: 32 word) \<noteq> OPT_ENCODER_DT
   \<and> gpio_callback 11 GPIO_IRQ_EDGE_FALL reposo = reposo
   \<and> int (sum_list (map flancos ([gira 5] @ [gira 3]))) < 2 ^ 31
   \<and> pulsos_encoder (snd (enrollar_auto reposo [gira 5])) \<le>
       pulsos_encoder (snd (enrollar_auto reposo ([gira 5] @ [gira 3])))
   \<and> pulsos_encoder (snd (enrollar_hasta 1 reposo [gira 5])) \<le>
       pulsos_encoder (snd (enrollar_hasta 1 reposo ([gira 5] @ [gira 3])))
   \<and> fst (enrollar_auto reposo [gira 5, gira 3]) = None
   \<and> pulsos_encoder (snd (enrollar_auto reposo [gira 5, gira 3])) = 8
   \<and> fst (enrollar_hasta 1 reposo [gira 5, gira 3]) = None
   \<and> pulsos_encoder (snd (enrollar_hasta 1 reposo [gira 5, gira 3])) = 8
   \<and> fst (enrollar_cobre_manual 100 reposo [gira 5, gira 3]) = None
   \<and> pulsos_encoder (snd (enrollar_cobre_manual 100 reposo [gira 5, gira 3])) = 8
   \<and> fst (enrollar_cobre_auto reposo [gira 5, gira 3]) = None
   \<and> pulsos_encoder (snd (enrollar_cobre_auto reposo [gira 5, gira 3])) = 8"
proof -
  have e: "GPIO_IRQ_EDGE_FALL AND GPIO_IRQ_EDGE_FALL \<noteq> 0"
    by (simp add: GPIO_IRQ_EDGE_FALL_def)
  have r: "- (2 ^ 31) \<le> pulsos_encoder reposo" "pulsos_encoder reposo < 2 ^ 31 - 1"
    "pulsos_encoder reposo + 1 = 8"
    by (simp_all add: reposo_def)
  have g: "(11 :: 32 word) \<noteq> OPT_ENCODER_DT" by (simp add: OPT_ENCODER_DT_def)
  have l: "int (sum_list (map flancos ([gira 5] @ [gira 3]))) < 2 ^ 31"
    "int (sum_list (map flancos [gira 5, gira 3])) < 2 ^ 31"
    "int (sum_list (map flancos [gira 5, gira 3])) = 8"
    by simp_all
  note a = contador_de_pulsos [where s = reposo and events = GPIO_IRQ_EDGE_FALL and gpio = 11
      and pre = "[gira 5]" and post = "[gira 3]" and ticks = "[gira 5, gira 3]"
      and metros = 1 and mh = 100 and c = 0]
  have i: "gpio_callback OPT_ENCODER_DT GPIO_IRQ_EDGE_FALL reposo = reposo\<lparr>pulsos_encoder := 8\<rparr>"
    using a e r by simp
  have o: "gpio_callback 11 GPIO_IRQ_EDGE_FALL reposo = reposo"
    using a g by blast
  have m: "pulsos_encoder (snd (enrollar_auto reposo [gira 5])) \<le>
       pulsos_encoder (snd (enrollar_auto reposo ([gira 5] @ [gira 3])))"
    "pulsos_encoder (snd (enrollar_hasta 1 reposo [gira 5])) \<le>
       pulsos_encoder (snd (enrollar_hasta 1 reposo ([gira 5] @ [gira 3])))"
    using a l(1) by blast+
  have x: "pulsos_encoder (snd (enrollar_auto reposo [gira 5, gira 3])) = 8"
    "pulsos_encoder (snd (enrollar_hasta 1 reposo [gira 5, gira 3])) = 8"
    "pulsos_encoder (snd (enrollar_cobre_manual 100 reposo [gira 5, gira 3])) = 8"
    "pulsos_encoder (snd (enrollar_cobre_auto reposo [gira 5, gira 3])) = 8"
    using a l(2) anda_8 unfolding l(3) by blast+
  show ?thesis
    by (intro conjI e r(1,2) i g o l(1) m anda_8 x)
qed


end
